theory Spec2Isabelle
  imports Complex_Main "HOL-Library.Sublist" "HOL-Library.AList"
begin

section \<open>Python strings and paths\<close>

text \<open>
  A Python \<open>str\<close> is modelled as a \<open>string\<close>; \<open>length\<close> counts what Python's
  \<open>len\<close> counts (one unit per character of the source string).
\<close>

datatype py_error = KeyError | IndexError | TypeError | ValueError | ClientError string | OSError

text \<open>
  \<open>s.replace(old, new)\<close> for a non-empty \<open>old\<close>: scan from the left, replace every
  non-overlapping occurrence. The counter skips the rest of an occurrence just replaced.
  For an empty \<open>old\<close> Python inserts \<open>new\<close> before every character and at the end.
\<close>

fun replace_scan :: "string \<Rightarrow> string \<Rightarrow> nat \<Rightarrow> string \<Rightarrow> string" where
  "replace_scan old new k [] = []"
| "replace_scan old new (Suc k) (c # cs) = replace_scan old new k cs"
| "replace_scan old new 0 (c # cs) =
     (if prefix old (c # cs) then new @ replace_scan old new (length old - 1) cs
      else c # replace_scan old new 0 cs)"

definition py_replace :: "string \<Rightarrow> string \<Rightarrow> string \<Rightarrow> string" where
  "py_replace old new s =
     (if old = [] then new @ concat (map (\<lambda>c. c # new) s)
      else replace_scan old new 0 s)"

definition sep :: char where
  "sep = CHR ''/''"

text \<open>\<open>s.rstrip(os.path.sep)\<close>\<close>

definition rstrip_sep :: "string \<Rightarrow> string" where
  "rstrip_sep s = rev (dropWhile (\<lambda>c. c = sep) (rev s))"

text \<open>\<open>s.lstrip(os.path.sep)\<close>\<close>

definition lstrip_sep :: "string \<Rightarrow> string" where
  "lstrip_sep s = dropWhile (\<lambda>c. c = sep) s"

text \<open>\<open>s.split(c)\<close>: the pieces between the separators, empty pieces included.\<close>

fun split_on :: "char \<Rightarrow> string \<Rightarrow> string list" where
  "split_on c [] = [[]]"
| "split_on c (x # xs) =
     (if x = c then [] # split_on c xs
      else (case split_on c xs of [] \<Rightarrow> [[x]] | p # ps \<Rightarrow> (x # p) # ps))"

text \<open>\<open>sep.join(parts)\<close>\<close>

fun join_with :: "string \<Rightarrow> string list \<Rightarrow> string" where
  "join_with s [] = []"
| "join_with s [p] = p"
| "join_with s (p # q # ps) = p @ s @ join_with s (q # ps)"

text \<open>\<open>os.path.join(a, b)\<close> on POSIX, for the two-argument calls of the source.\<close>

definition path_join :: "string \<Rightarrow> string \<Rightarrow> string" where
  "path_join a b =
     (if b \<noteq> [] \<and> hd b = sep then b
      else if a = [] \<or> last a = sep then a @ b
      else a @ [sep] @ b)"

text \<open>
  \<open>pathlib.Path(folder).parents\<close> on POSIX, rendered with \<open>str\<close>: the path is parsed
  into a root (\<open>/\<close>, or \<open>//\<close> for exactly two leading slashes, or none) and its parts
  (empty and \<open>.\<close> components dropped); the parents are the proper prefixes of the parts,
  nearest first.
\<close>

definition path_root :: "string \<Rightarrow> string" where
  "path_root s =
     (if take 2 s = [sep, sep] \<and> take 3 s \<noteq> [sep, sep, sep] then [sep, sep]
      else if take 1 s = [sep] then [sep]
      else [])"

definition path_parts :: "string \<Rightarrow> string list" where
  "path_parts s = filter (\<lambda>p. p \<noteq> [] \<and> p \<noteq> ''.'') (split_on sep s)"

definition path_str :: "string \<Rightarrow> string list \<Rightarrow> string" where
  "path_str anchor parts =
     (if anchor = [] \<and> parts = [] then ''.'' else anchor @ join_with [sep] parts)"

definition path_parents :: "string \<Rightarrow> string list" where
  "path_parents s =
     map (\<lambda>k. path_str (path_root s) (take k (path_parts s)))
         (rev [0 ..< length (path_parts s)])"

section \<open>Hotspots file name\<close>

text \<open>
  One record of \<open>_get_mount_info\<close>: a network mount read from the mount table of the
  operating system. The table is the environment's, so the list of mounts is an argument.
\<close>

record mount_info =
  mount_source_folder :: string
  mount_point :: string
  fs_type :: string
  mount_source :: string

text \<open>\<open>Archiver._get_last_directory\<close>\<close>

definition get_last_directory :: "string \<Rightarrow> string" where
  "get_last_directory path = last (split_on sep (rstrip_sep path))"

text \<open>
  The body of the loop of \<open>Archiver._get_hotspots_file\<close> for one mount: it overwrites the
  name when the folder starts with the mount point, and elides the middle of a name longer
  than 255.
\<close>

definition hotspots_mount_step :: "string \<Rightarrow> string \<Rightarrow> mount_info \<Rightarrow> string" where
  "hotspots_mount_step folder hsfile mnt =
     (if prefix (mount_point mnt) folder then
        (let traildir = get_last_directory (mount_point mnt);
             hsfile1 = py_replace (mount_point mnt) [] folder;
             hsfile2 = ''@'' @ traildir @ ''+'' @ hsfile1
         in if length hsfile2 > 255
            then take 25 hsfile2 @ ''.....'' @ drop (length hsfile2 - 225) hsfile2
            else hsfile2)
      else hsfile)"

text \<open>\<open>Archiver._get_hotspots_file\<close>\<close>

definition get_hotspots_file :: "mount_info list \<Rightarrow> string \<Rightarrow> string" where
  "get_hotspots_file mountlist folder =
     foldl (hotspots_mount_step folder)
           (py_replace ''/'' ''+'' folder @ ''.csv'') mountlist"

section \<open>Archive registry\<close>

text \<open>
  One entry of the registry file. The source reads \<open>archive_mode\<close> both guarded
  (\<open>'archive_mode' in rowdict\<close>) and unguarded, so the key may be absent: \<open>None\<close>.
\<close>

record entry =
  local_folder :: string
  archive_folder :: string
  s3_storage_class :: string
  profile :: string
  archive_mode :: "string option"
  timestamp :: string
  timestamp_archive :: string
  user :: string
  nih_project :: "(string \<times> string \<times> string) option"

text \<open>
  The registry file on disk: absent, present but not parseable as JSON, or a dictionary
  from folder to entry.
\<close>

datatype registry_file = Missing | Corrupt | Parsed "string \<rightharpoonup> entry"

text \<open>
  The loop over \<open>path.parents\<close> in \<open>Archiver.archive_json_get_row\<close>: the first parent
  that is a key and whose entry has \<open>archive_mode == 'Recursive'\<close>. Reading the mode of an
  entry without that key raises \<open>KeyError\<close>.
\<close>

fun parent_lookup :: "(string \<rightharpoonup> entry) \<Rightarrow> string list \<Rightarrow> py_error + entry option" where
  "parent_lookup data [] = Inr None"
| "parent_lookup data (parent # rest) =
     (case data parent of
        None \<Rightarrow> parent_lookup data rest
      | Some e \<Rightarrow>
          (case archive_mode e of
             None \<Rightarrow> Inl KeyError
           | Some m \<Rightarrow> if m = ''Recursive'' then Inr (Some e) else parent_lookup data rest))"

text \<open>\<open>Archiver.archive_json_get_row\<close>\<close>

definition archive_json_get_row :: "registry_file \<Rightarrow> string \<Rightarrow> py_error + entry option" where
  "archive_json_get_row reg folder =
     (case reg of
        Missing \<Rightarrow> Inr None
      | Corrupt \<Rightarrow> Inr None
      | Parsed data \<Rightarrow>
          (case data folder of
             Some e \<Rightarrow> Inr (Some e)
           | None \<Rightarrow> parent_lookup data (path_parents folder)))"

section \<open>Indexer query\<close>

text \<open>
  One row of the tree walker's output, with the columns the query reads.
\<close>

record pwalk_row =
  UID :: int
  GID :: int
  st_atime :: int
  st_mtime :: int
  filename :: string
  pw_fcount :: int
  pw_dirsum :: int

text \<open>
  One row of the query's result. The database divides as fractions, modelled here by exact
  division; a division by zero yields \<open>NULL\<close>, which is \<open>None\<close>.
\<close>

record hotspot_row =
  User :: int
  AccD :: int
  ModD :: int
  GiB :: real
  MiBAvg :: "real option"
  Folder :: string
  Group :: int
  TiB :: real
  FileCount :: int
  DirSize :: int

text \<open>The \<open>grep -v ",-1,0$"\<close> step: lines of plain files (count -1, sum 0) are dropped.\<close>

definition drop_file_lines :: "pwalk_row list \<Rightarrow> pwalk_row list" where
  "drop_file_lines rows = filter (\<lambda>r. \<not> (pw_fcount r = -1 \<and> pw_dirsum r = 0)) rows"

text \<open>The \<open>WHERE\<close> clause of the query in \<open>Archiver._index_locally\<close>.\<close>

definition sql_where :: "pwalk_row \<Rightarrow> bool" where
  "sql_where r \<longleftrightarrow> pw_fcount r > -1 \<and> pw_dirsum r > 0"

text \<open>The \<open>SELECT\<close> list of the query.\<close>

definition sql_select :: "pwalk_row \<Rightarrow> hotspot_row" where
  "sql_select r =
     \<lparr> User = UID r, AccD = st_atime r, ModD = st_mtime r,
       GiB = real_of_int (pw_dirsum r) / 1073741824,
       MiBAvg = (if pw_fcount r = 0 then None
                 else Some (real_of_int (pw_dirsum r) / 1048576 / real_of_int (pw_fcount r))),
       Folder = filename r, Group = GID r,
       TiB = real_of_int (pw_dirsum r) / 1099511627776,
       FileCount = pw_fcount r, DirSize = pw_dirsum r \<rparr>"

text \<open>
  The whole query: filter, \<open>ORDER BY pw_dirsum Desc\<close> (ties in the order of the input),
  project.
\<close>

definition sql_query :: "pwalk_row list \<Rightarrow> hotspot_row list" where
  "sql_query rows = map sql_select (sort_key (\<lambda>r. - pw_dirsum r) (filter sql_where rows))"

text \<open>The rows the indexer works on: the walker's output, file lines dropped, queried.\<close>

definition index_rows :: "pwalk_row list \<Rightarrow> hotspot_row list" where
  "index_rows rows = sql_query (drop_file_lines rows)"

section \<open>Glacier restore controller\<close>

text \<open>The fields of a \<open>head_object\<close> response that the controller reads.\<close>

record head_response =
  StorageClass :: "string option"
  Restore :: "string option"

text \<open>
  The object store client, as the controller uses it. \<open>paginate\<close> stands for the three
  calls inside the \<open>try\<close> (creating the client, getting the paginator, calling
  \<open>paginate\<close>): they send no request and return the page iterator, or raise. The
  iterator is the list of what each step of \<open>for page in pages\<close> gives: the listing
  request is sent there, and a step either yields a page (with or without \<open>Contents\<close>)
  or raises. Reading an object's header and requesting a restore either return or raise.
\<close>

record s3_client =
  paginate :: "string \<Rightarrow> string \<Rightarrow> py_error + (py_error + string list option) list"
  head_object :: "string \<Rightarrow> string \<Rightarrow> py_error + head_response"
  restore_object :: "string \<Rightarrow> string \<Rightarrow> int \<Rightarrow> string \<Rightarrow> py_error + unit"

text \<open>The four lists the controller accumulates.\<close>

record restore_lists =
  triggered_keys :: "string list"
  restoring_keys :: "string list"
  restored_keys :: "string list"
  not_glacier_keys :: "string list"

definition glacier_classes :: "string set" where
  "glacier_classes = {''GLACIER'', ''DEEP_ARCHIVE''}"

text \<open>The body of the inner loop of \<open>Archiver._glacier_restore\<close> for one object key.\<close>

definition classify_key ::
  "s3_client \<Rightarrow> string \<Rightarrow> string \<Rightarrow> int \<Rightarrow> string \<Rightarrow> bool \<Rightarrow> restore_lists \<Rightarrow> string
     \<Rightarrow> py_error + restore_lists" where
  \<open>classify_key s3 bucket pfx keep_days ret_opt recursive acc object_key =
     (let remaining_path = drop (length pfx) object_key in
      if sep \<in> set remaining_path \<and> \<not> recursive then Inr acc
      else
        (case head_object s3 bucket object_key of
           Inl e \<Rightarrow> Inl e
         | Inr header \<Rightarrow>
             (case StorageClass header of
                None \<Rightarrow> Inr acc
              | Some c \<Rightarrow>
                  if c \<notin> glacier_classes
                  then Inr (acc\<lparr>not_glacier_keys := not_glacier_keys acc @ [object_key]\<rparr>)
                  else if (case Restore header of None \<Rightarrow> False
                           | Some r \<Rightarrow> sublist ''ongoing-request="true"'' r)
                  then Inr (acc\<lparr>restoring_keys := restoring_keys acc @ [object_key]\<rparr>)
                  else if (case Restore header of None \<Rightarrow> False
                           | Some r \<Rightarrow> sublist ''ongoing-request="false"'' r)
                  then Inr (acc\<lparr>restored_keys := restored_keys acc @ [object_key]\<rparr>)
                  else
                    (case restore_object s3 bucket object_key keep_days ret_opt of
                       Inr _ \<Rightarrow> Inr (acc\<lparr>triggered_keys := triggered_keys acc @ [object_key]\<rparr>)
                     | Inl (ClientError code) \<Rightarrow>
                         if code = ''RestoreAlreadyInProgress''
                         then Inr (acc\<lparr>restoring_keys := restoring_keys acc @ [object_key]\<rparr>)
                         else Inr acc
                     | Inl _ \<Rightarrow> Inr acc))))\<close>

fun classify_keys ::
  "s3_client \<Rightarrow> string \<Rightarrow> string \<Rightarrow> int \<Rightarrow> string \<Rightarrow> bool \<Rightarrow> restore_lists \<Rightarrow> string list
     \<Rightarrow> py_error + restore_lists" where
  "classify_keys s3 bucket pfx keep_days ret_opt recursive acc [] = Inr acc"
| "classify_keys s3 bucket pfx keep_days ret_opt recursive acc (k # ks) =
     (case classify_key s3 bucket pfx keep_days ret_opt recursive acc k of
        Inl e \<Rightarrow> Inl e
      | Inr acc' \<Rightarrow> classify_keys s3 bucket pfx keep_days ret_opt recursive acc' ks)"

text \<open>
  The outer loop \<open>for page in pages\<close>, which is outside the \<open>try\<close>: an exception of
  a listing request propagates; a page without \<open>Contents\<close> is skipped.
\<close>

fun classify_pages ::
  "s3_client \<Rightarrow> string \<Rightarrow> string \<Rightarrow> int \<Rightarrow> string \<Rightarrow> bool \<Rightarrow> restore_lists
     \<Rightarrow> (py_error + string list option) list \<Rightarrow> py_error + restore_lists" where
  "classify_pages s3 bucket pfx keep_days ret_opt recursive acc [] = Inr acc"
| "classify_pages s3 bucket pfx keep_days ret_opt recursive acc (Inl e # pages) = Inl e"
| "classify_pages s3 bucket pfx keep_days ret_opt recursive acc (Inr None # pages) =
     classify_pages s3 bucket pfx keep_days ret_opt recursive acc pages"
| "classify_pages s3 bucket pfx keep_days ret_opt recursive acc (Inr (Some keys) # pages) =
     (case classify_keys s3 bucket pfx keep_days ret_opt recursive acc keys of
        Inl e \<Rightarrow> Inl e
      | Inr acc' \<Rightarrow> classify_pages s3 bucket pfx keep_days ret_opt recursive acc' pages)"

text \<open>
  \<open>Archiver._glacier_restore\<close>. The value returned is a Python tuple of lists, whose
  number of components differs between the return statements: it is modelled as the list
  of its components. The handler covers the calls inside the \<open>try\<close> only, and only a
  \<open>ClientError\<close> of theirs.
\<close>

definition glacier_restore ::
  "s3_client \<Rightarrow> string \<Rightarrow> string \<Rightarrow> int \<Rightarrow> string \<Rightarrow> bool \<Rightarrow> py_error + string list list" where
  "glacier_restore s3 bucket pfx keep_days ret_opt recursive =
     (case paginate s3 bucket pfx of
        Inl (ClientError code) \<Rightarrow> Inr [[], [], []]
      | Inl e \<Rightarrow> Inl e
      | Inr pages \<Rightarrow>
          (case classify_pages s3 bucket pfx keep_days ret_opt recursive
                  \<lparr>triggered_keys = [], restoring_keys = [], restored_keys = [],
                   not_glacier_keys = []\<rparr> pages of
             Inl e \<Rightarrow> Inl e
           | Inr acc \<Rightarrow>
               Inr [triggered_keys acc, restoring_keys acc, restored_keys acc,
                    not_glacier_keys acc]))"

text \<open>
  The unpacking \<open>trig, rest, done, notg = ...\<close> in \<open>Archiver.restore\<close>: a tuple of any
  other length raises \<open>ValueError\<close>.
\<close>

definition unpack4 :: "'a list \<Rightarrow> py_error + ('a \<times> 'a \<times> 'a \<times> 'a)" where
  "unpack4 t = (case t of [a, b, c, d] \<Rightarrow> Inr (a, b, c, d) | _ \<Rightarrow> Inl ValueError)"

section \<open>Object store copier\<close>

text \<open>
  One run of the external copy tool: the command line and the storage class in its
  environment (the other environment variables are fixed by the configuration).
\<close>

record rclone_call =
  command :: "string list"
  env_storage_class :: string

text \<open>
  The tool itself is outside the program: whether a run succeeds (exit status 0) is given
  by the environment, and may depend on the runs before it.
\<close>

type_synonym rclone_tool = "rclone_call list \<Rightarrow> rclone_call \<Rightarrow> bool"

text \<open>The part of the configuration and of the command line arguments that is read.\<close>

record config =
  bucket_name :: string
  archive_dir :: string
  storage_class :: string
  aws_profile :: string
  email :: string
  thresholdKB :: int
  rclone_bin :: string
  arg_days :: int
  arg_retrieveopt :: string
  arg_nodownload :: bool
  arg_cores :: int
  arg_recursive :: bool
  arg_notar :: bool
  arg_force :: bool
  is_nih :: bool

text \<open>\<open>Rclone._add_opt\<close> without a value\<close>

definition add_opt :: "string list \<Rightarrow> string \<Rightarrow> string list" where
  "add_opt cmd option = (if option \<in> set cmd then cmd else cmd @ [option])"

text \<open>The three options that \<open>Rclone._run_rclone_command\<close> adds to every command.\<close>

definition with_log_options :: "string list \<Rightarrow> string list" where
  "with_log_options cmd =
     add_opt (add_opt (add_opt cmd ''--verbose'') ''--use-json-log'') ''--progress''"

text \<open>
  \<open>Rclone._run_rclone_command\<close>: every path returns a boolean, true exactly when the
  tool exits with status 0. The run is appended to the log of runs.
\<close>

definition run_rclone_command ::
  "rclone_tool \<Rightarrow> string \<Rightarrow> string list \<Rightarrow> rclone_call list \<Rightarrow> bool \<times> rclone_call list" where
  "run_rclone_command tool sclass cmd runs =
     (let call = \<lparr>command = with_log_options cmd, env_storage_class = sclass\<rparr>
      in (tool runs call, runs @ [call]))"

text \<open>\<open>Rclone.copy\<close>\<close>

definition rclone_copy ::
  "rclone_tool \<Rightarrow> config \<Rightarrow> string \<Rightarrow> string \<Rightarrow> string \<Rightarrow> string list \<Rightarrow> rclone_call list
     \<Rightarrow> bool \<times> rclone_call list" where
  "rclone_copy tool cfg sclass src dst args runs =
     run_rclone_command tool sclass ([rclone_bin cfg, ''copy''] @ args @ [src, dst]) runs"

text \<open>\<open>Rclone.checksum\<close>\<close>

definition rclone_checksum ::
  "rclone_tool \<Rightarrow> config \<Rightarrow> string \<Rightarrow> string \<Rightarrow> string \<Rightarrow> string list \<Rightarrow> rclone_call list
     \<Rightarrow> bool \<times> rclone_call list" where
  "rclone_checksum tool cfg sclass md5file dst args runs =
     run_rclone_command tool sclass
       ([rclone_bin cfg, ''checksum''] @ args @ [''md5'', md5file, dst]) runs"

section \<open>Restore\<close>

text \<open>\<open>s.split('/', 1)\<close>: at most one split, at the first separator.\<close>

definition split_first :: "string \<Rightarrow> string list" where
  "split_first s =
     (if sep \<in> set s then [takeWhile (\<lambda>c. c \<noteq> sep) s, tl (dropWhile (\<lambda>c. c \<noteq> sep) s)]
      else [s])"

text \<open>
  \<open>Archiver.archive_get_bucket_info\<close>: bucket, prefix, recursive, glacier. An absent
  entry gives \<open>None\<close> for bucket and prefix.
\<close>

definition archive_get_bucket_info ::
  "registry_file \<Rightarrow> string \<Rightarrow> py_error + (string option \<times> string option \<times> bool \<times> bool)" where
  "archive_get_bucket_info reg folder =
     (case archive_json_get_row reg folder of
        Inl e \<Rightarrow> Inl e
      | Inr None \<Rightarrow> Inr (None, None, False, False)
      | Inr (Some rowdict) \<Rightarrow>
          (let recursive = (archive_mode rowdict = Some ''Recursive'');
               glacier = (s3_storage_class rowdict \<in> {''DEEP_ARCHIVE'', ''GLACIER''})
           in case split_first (archive_folder rowdict) of
                [b, p] \<Rightarrow> Inr (Some (py_replace '':s3:'' [] b), Some (p @ [sep]), recursive, glacier)
              | _ \<Rightarrow> Inl IndexError))"

text \<open>What \<open>Archiver.restore\<close> returns: \<open>False\<close> or an integer.\<close>

datatype restore_value = RFalse | RInt int

text \<open>
  \<open>Archiver.restore\<close>. After the copy, the boolean that \<open>Rclone.copy\<close> returned is
  subscripted (\<open>ret['stats']\<close>), which raises \<open>TypeError\<close>. What the download changes
  in the target folder is the tool's doing and is not part of the result. A glacier entry
  always has a bucket and a prefix; the branch without them stands for the client
  rejecting \<open>None\<close>.
\<close>

definition restore ::
  "config \<Rightarrow> s3_client \<Rightarrow> rclone_tool \<Rightarrow> registry_file \<Rightarrow> string \<Rightarrow> bool \<Rightarrow> rclone_call list
     \<Rightarrow> (py_error + restore_value) \<times> rclone_call list" where
  "restore cfg s3 tool reg folder recursive0 runs =
     (case archive_json_get_row reg folder of
        Inl e \<Rightarrow> (Inl e, runs)
      | Inr None \<Rightarrow> (Inr RFalse, runs)
      | Inr (Some rowdict) \<Rightarrow>
          (let recursive = (recursive0 \<or> archive_mode rowdict = Some ''Recursive'') in
           if folder \<noteq> local_folder rowdict \<and> \<not> recursive then (Inr RFalse, runs)
           else
             (let tail = (if folder \<noteq> local_folder rowdict
                          then py_replace (local_folder rowdict) [] folder else []);
                  source = archive_folder rowdict @ tail @ [sep];
                  target = folder
              in case archive_get_bucket_info reg target of
                   Inl e \<Rightarrow> (Inl e, runs)
                 | Inr (buc, pre, recur, isglacier) \<Rightarrow>
                     (let pending =
                        (if isglacier then
                           (case (buc, pre) of
                              (Some b, Some p) \<Rightarrow>
                                (case glacier_restore s3 b p (arg_days cfg) (arg_retrieveopt cfg)
                                        recur of
                                   Inl e \<Rightarrow> Inl e
                                 | Inr t \<Rightarrow>
                                     (case unpack4 t of
                                        Inl e \<Rightarrow> Inl e
                                      | Inr (trig, rest, done, notg) \<Rightarrow>
                                          if length trig > 0 \<or> length rest > 0
                                          then Inr (Some (int (length trig) + int (length rest)))
                                          else Inr None))
                            | _ \<Rightarrow> Inl TypeError)
                         else Inr None)
                      in case pending of
                           Inl e \<Rightarrow> (Inl e, runs)
                         | Inr (Some n) \<Rightarrow> (Inr (RInt n), runs)
                         | Inr None \<Rightarrow>
                             if arg_nodownload cfg then (Inr (RInt (-1)), runs)
                             else
                               (let (ret, runs') =
                                      (if recursive
                                       then rclone_copy tool cfg (storage_class cfg) source target [] runs
                                       else rclone_copy tool cfg (storage_class cfg) source target
                                              [''--max-depth'', ''1''] runs)
                                in (Inl TypeError, runs'))))))"

section \<open>Local file system\<close>

text \<open>
  What the program distinguishes about a directory entry: a regular file
  (\<open>os.path.isfile\<close>; a symbolic link counts as what it points to), a directory, or
  another existing object (a FIFO, a socket, a device), which \<open>os.walk\<close> lists among the
  files but \<open>os.path.isfile\<close> rejects.
\<close>

datatype kind = Regular | Directory | Special

text \<open>The fields of \<open>os.lstat\<close> that are read.\<close>

record file_stat =
  size_bytes :: nat
  mtime :: int
  atime :: int
  owner_uid :: nat
  group_gid :: nat
  mode_bits :: nat

text \<open>
  One row of \<open>Froster.allfiles.csv\<close>. Dates, owner and group are kept as the numbers
  they are rendered from.
\<close>

record csv_row =
  csv_file :: string
  csv_size :: nat
  csv_date_modified :: int
  csv_date_accessed :: int
  csv_owner :: nat
  csv_group :: nat
  csv_permissions :: nat
  csv_tarred :: string

text \<open>
  A directory entry and what it holds: opaque bytes, the rows of a catalog, the lines of a
  manifest (digest and base name), the lines of a placeholder, or the members of a tar
  archive.
\<close>

datatype node = Node (node_kind: kind) (node_stat: file_stat) (node_content: content)
  and content =
    Blob nat
  | Catalog "csv_row list"
  | Manifest "(string \<times> string) list"
  | Readme "string list"
  | Tar "(string \<times> node) list"

text \<open>
  A directory is the list of its direct children in the order the operating system lists
  them; names are unique in a directory.
\<close>

type_synonym dir = "(string \<times> node) list"

text \<open>\<open>os.path.exists\<close> and \<open>os.path.isfile\<close> for a child of a directory.\<close>

definition dir_exists :: "dir \<Rightarrow> string \<Rightarrow> bool" where
  "dir_exists d name \<longleftrightarrow> map_of d name \<noteq> None"

definition dir_isfile :: "dir \<Rightarrow> string \<Rightarrow> bool" where
  "dir_isfile d name \<longleftrightarrow>
     (case map_of d name of None \<Rightarrow> False | Some n \<Rightarrow> node_kind n = Regular)"

definition dir_isdir :: "dir \<Rightarrow> string \<Rightarrow> bool" where
  "dir_isdir d name \<longleftrightarrow>
     (case map_of d name of None \<Rightarrow> False | Some n \<Rightarrow> node_kind n = Directory)"

text \<open>\<open>os.remove\<close> of a child, and writing a child (created at the end when new).\<close>

definition dir_remove :: "string \<Rightarrow> dir \<Rightarrow> dir" where
  "dir_remove name d = AList.delete name d"

definition dir_write :: "string \<Rightarrow> node \<Rightarrow> dir \<Rightarrow> dir" where
  "dir_write name n d = AList.update name n d"

text \<open>The \<open>files\<close> that \<open>os.walk\<close> reports for the top directory: all non-directories.\<close>

definition walk_files :: "dir \<Rightarrow> string list" where
  "walk_files d = map fst (filter (\<lambda>(name, n). node_kind n \<noteq> Directory) d)"

text \<open>
  What the program takes from its surroundings: the copy tool, the digest of a file's
  content, the rank at which the hashing task of a file completes, the attributes the
  operating system gives a file just written, the clock, the current user, read and
  write access to a path, the directories below a folder in the
  order \<open>os.walk\<close> visits them, expansion of the home directory and resolution of
  symbolic links in a path, whether the batch scheduler is to be used, and the grant
  record chosen by the user.
\<close>

record environment =
  copy_tool :: rclone_tool
  md5_of :: "content \<Rightarrow> string"
  completion_rank :: "string \<Rightarrow> nat"
  stat_of_new :: "content \<Rightarrow> file_stat"
  clock_now :: string
  os_user :: string
  access_rw :: "string \<Rightarrow> bool"
  walk_below :: "string \<Rightarrow> string list"
  expanduser :: "string \<Rightarrow> string"
  realpath :: "string \<Rightarrow> string"
  use_slurm :: bool
  nih_choice :: "(string \<times> string \<times> string) option"

text \<open>
  The state the archiver works on: the folders with their direct children, the registry
  file, and the runs of the copy tool so far.
\<close>

record world =
  fs :: "string \<rightharpoonup> dir"
  registry :: registry_file
  rclone_runs :: "rclone_call list"

definition new_file :: "environment \<Rightarrow> content \<Rightarrow> node" where
  "new_file env c = Node Regular (stat_of_new env c) c"

section \<open>Meta files\<close>

definition smallfiles_tar_filename :: string where
  "smallfiles_tar_filename = ''Froster.smallfiles.tar''"

definition allfiles_csv_filename :: string where
  "allfiles_csv_filename = ''Froster.allfiles.csv''"

definition md5sum_filename :: string where
  "md5sum_filename = ''.froster.md5sum''"

definition md5sum_restored_filename :: string where
  "md5sum_restored_filename = ''.froster-restored.md5sum''"

definition where_did_the_files_go_filename :: string where
  "where_did_the_files_go_filename = ''Where-did-the-files-go.txt''"

definition dirmetafiles :: "string list" where
  "dirmetafiles = [allfiles_csv_filename, smallfiles_tar_filename, md5sum_filename,
                   md5sum_restored_filename, where_did_the_files_go_filename]"

section \<open>Checksum engine\<close>

text \<open>
  The lines of the manifest that \<open>Archiver._gen_md5sums\<close> writes for a directory: one per
  listed file that is a regular file and is not the hash file itself, the placeholder or
  one of the two manifests. The digests are computed in parallel and the lines are
  written as the tasks complete: that order is the environment's, given as the rank at
  which the task of each file completes.
\<close>

definition md5_lines :: "environment \<Rightarrow> string \<Rightarrow> dir \<Rightarrow> (string \<times> string) list" where
  "md5_lines env hash_file d =
     sort_key (\<lambda>(md5, file). completion_rank env file)
       (concat (map (\<lambda>file.
          if dir_isfile d file \<and> file \<noteq> hash_file \<and> file \<noteq> where_did_the_files_go_filename
             \<and> file \<noteq> md5sum_filename \<and> file \<noteq> md5sum_restored_filename
          then (case map_of d file of
                  Some n \<Rightarrow> [(md5_of env (node_content n), file)]
                | None \<Rightarrow> [])
          else []) (walk_files d)))"

text \<open>
  \<open>Archiver._gen_md5sums\<close>. A missing directory makes the walk empty and the function
  fall through (a false result); a hash file name held by a directory makes \<open>open\<close> raise,
  which is caught. An empty manifest is removed again.
\<close>

definition gen_md5sums ::
  "environment \<Rightarrow> string \<Rightarrow> string \<Rightarrow> (string \<rightharpoonup> dir) \<Rightarrow> bool \<times> (string \<rightharpoonup> dir)" where
  "gen_md5sums env directory hash_file files =
     (case files directory of
        None \<Rightarrow> (False, files)
      | Some d \<Rightarrow>
          if dir_isdir d hash_file then (False, files)
          else
            (let lines = md5_lines env hash_file d in
             if lines = [] then (False, files(directory \<mapsto> dir_remove hash_file d))
             else (True, files(directory \<mapsto> dir_write hash_file (new_file env (Manifest lines)) d))))"

section \<open>Small-file packer\<close>

text \<open>The state of the loop of \<open>Archiver._gen_allfiles_and_tar\<close>.\<close>

record pack_state =
  tar_members :: "(string \<times> node) list"
  csv_rows :: "csv_row list"
  pack_dir :: dir
  didtar :: bool

definition make_row :: "string \<Rightarrow> file_stat \<Rightarrow> string \<Rightarrow> csv_row" where
  "make_row file st tarred =
     \<lparr> csv_file = file, csv_size = size_bytes st, csv_date_modified = mtime st,
       csv_date_accessed = atime st, csv_owner = owner_uid st, csv_group = group_gid st,
       csv_permissions = mode_bits st, csv_tarred = tarred \<rparr>"

text \<open>
  The loop over the listed files. The catalog itself is skipped. A listed file that is
  gone makes the date conversion raise on \<open>None\<close>: the loop stops with what it has done.
\<close>

fun pack_files :: "int \<Rightarrow> bool \<Rightarrow> string list \<Rightarrow> pack_state \<Rightarrow> bool \<times> pack_state" where
  "pack_files smallsize is_tar [] st = (True, st)"
| "pack_files smallsize is_tar (file # rest) st =
     (if file = allfiles_csv_filename then pack_files smallsize is_tar rest st
      else
        (case map_of (pack_dir st) file of
           None \<Rightarrow> (False, st)
         | Some n \<Rightarrow>
             if is_tar \<and> int (size_bytes (node_stat n)) < smallsize * 1024
             then pack_files smallsize is_tar rest
                    (st\<lparr> tar_members := tar_members st @ [(file, n)],
                         didtar := True,
                         pack_dir := dir_remove file (pack_dir st),
                         csv_rows := csv_rows st @ [make_row file (node_stat n) ''Yes''] \<rparr>)
             else pack_files smallsize is_tar rest
                    (st\<lparr> csv_rows := csv_rows st @ [make_row file (node_stat n) ''No''] \<rparr>)))"

text \<open>
  \<open>Archiver._gen_allfiles_and_tar\<close>. With the tar already there it returns true at once.
  Otherwise the tar and the catalog are created, the listed files are gone through, and a
  tar that received nothing is removed. An exception (the catalog name held by a
  directory, or a listed file gone) leaves what was written and returns false.
\<close>

definition gen_allfiles_and_tar ::
  "environment \<Rightarrow> string \<Rightarrow> int \<Rightarrow> bool \<Rightarrow> (string \<rightharpoonup> dir) \<Rightarrow> bool \<times> (string \<rightharpoonup> dir)" where
  "gen_allfiles_and_tar env directory smallsize is_tar files =
     (case files directory of
        None \<Rightarrow> (True, files)
      | Some d \<Rightarrow>
          if dir_exists d smallfiles_tar_filename then (True, files)
          else
            (let listed = walk_files d;
                 d1 = dir_write smallfiles_tar_filename (new_file env (Tar [])) d
             in if dir_isdir d allfiles_csv_filename then (False, files(directory \<mapsto> d1))
                else
                  (let d2 = dir_write allfiles_csv_filename (new_file env (Catalog [])) d1;
                       (ok, st) = pack_files smallsize is_tar listed
                                    \<lparr> tar_members = [], csv_rows = [], pack_dir = d2,
                                      didtar = False \<rparr>;
                       d3 = dir_write allfiles_csv_filename (new_file env (Catalog (csv_rows st)))
                              (dir_write smallfiles_tar_filename
                                 (new_file env (Tar (tar_members st))) (pack_dir st))
                   in if \<not> ok then (False, files(directory \<mapsto> d3))
                      else if \<not> didtar st
                      then (True, files(directory \<mapsto> dir_remove smallfiles_tar_filename d3))
                      else (True, files(directory \<mapsto> d3)))))"

section \<open>Registry updates and reset\<close>

text \<open>
  \<open>Archiver._archive_json_add_entry\<close>: an absent file starts from the empty dictionary;
  an unparseable file is left as it is.
\<close>

definition archive_json_add_entry :: "registry_file \<Rightarrow> string \<Rightarrow> entry \<Rightarrow> registry_file" where
  "archive_json_add_entry reg key val =
     (case reg of
        Missing \<Rightarrow> Parsed [key \<mapsto> val]
      | Corrupt \<Rightarrow> Corrupt
      | Parsed data \<Rightarrow> Parsed (data(key \<mapsto> val)))"

text \<open>\<open>Archiver._is_folder_archived\<close>\<close>

definition is_folder_archived :: "registry_file \<Rightarrow> string \<Rightarrow> py_error + bool" where
  "is_folder_archived reg folder =
     (case archive_json_get_row reg folder of Inl e \<Rightarrow> Inl e | Inr r \<Rightarrow> Inr (r \<noteq> None))"

text \<open>\<open>tar.extractall(path=root)\<close>: every member is written under its name.\<close>

definition extract_all :: "(string \<times> node) list \<Rightarrow> dir \<Rightarrow> dir" where
  "extract_all ms d = fold (\<lambda>(name, n). dir_write name n) ms d"

text \<open>
  The loop over \<open>dirmetafiles\<close> in \<open>Archiver.reset_folder\<close>; \<open>os.remove\<close> raises on a
  directory, which ends the loop.
\<close>

fun remove_metafiles :: "string list \<Rightarrow> dir \<Rightarrow> dir" where
  "remove_metafiles [] d = d"
| "remove_metafiles (file # rest) d =
     (if dir_exists d file
      then (if dir_isdir d file then d else remove_metafiles rest (dir_remove file d))
      else remove_metafiles rest d)"

text \<open>
  The body of the loop of \<open>Archiver.reset_folder\<close> for one directory of the walk. An
  archived folder is left alone; every exception is caught and ends the work on this
  directory.
\<close>

definition reset_one :: "registry_file \<Rightarrow> string \<Rightarrow> (string \<rightharpoonup> dir) \<Rightarrow> (string \<rightharpoonup> dir)" where
  "reset_one reg dirpath files =
     (case files dirpath of
        None \<Rightarrow> files
      | Some d \<Rightarrow>
          (case is_folder_archived reg (rstrip_sep dirpath) of
             Inl e \<Rightarrow> files
           | Inr True \<Rightarrow> files
           | Inr False \<Rightarrow>
               (if dir_exists d smallfiles_tar_filename
                then (case map_of d smallfiles_tar_filename of
                        Some (Node k st (Tar ms)) \<Rightarrow>
                          files(dirpath \<mapsto> remove_metafiles dirmetafiles (extract_all ms d))
                      | _ \<Rightarrow> files)
                else files(dirpath \<mapsto> remove_metafiles dirmetafiles d))))"

text \<open>\<open>Archiver.reset_folder\<close>\<close>

definition reset_folder ::
  "environment \<Rightarrow> registry_file \<Rightarrow> string \<Rightarrow> bool \<Rightarrow> (string \<rightharpoonup> dir) \<Rightarrow> (string \<rightharpoonup> dir)" where
  "reset_folder env reg directory recursive files =
     (if files directory = None then files
      else fold (reset_one reg)
             (directory # (if recursive then walk_below env directory else [])) files)"

section \<open>Archive orchestrator\<close>

text \<open>
  How \<open>Archiver.archive_locally\<close> ends for one folder: by \<open>sys.exit\<close> with a status (which
  \<open>except Exception\<close> does not catch, so the process ends), by one of its \<open>return\<close>
  statements, by reaching the end, or by an exception that is caught and printed.
\<close>

datatype archive_outcome =
    Exit int
  | SkippedEmpty
  | PackFailed
  | ChecksumFailed
  | UploadFailed
  | AllfilesUploadFailed
  | VerifyFailed
  | Completed
  | Raised py_error

text \<open>The exclude options given to both copy runs.\<close>

definition upload_args :: "string list" where
  "upload_args =
     [''--max-depth'', ''1'', ''--links'',
      ''--exclude'', md5sum_filename,
      ''--exclude'', md5sum_restored_filename,
      ''--exclude'', allfiles_csv_filename,
      ''--exclude'', where_did_the_files_go_filename]"

definition s3_dest_of :: "config \<Rightarrow> string \<Rightarrow> string" where
  "s3_dest_of cfg folder_to_archive =
     path_join (path_join ('':s3:'' @ bucket_name cfg) (archive_dir cfg))
               (lstrip_sep folder_to_archive)"

definition new_entry ::
  "environment \<Rightarrow> config \<Rightarrow> string \<Rightarrow> bool \<Rightarrow> (string \<times> string \<times> string) option \<Rightarrow> entry" where
  "new_entry env cfg folder_to_archive is_recursive nih =
     \<lparr> local_folder = folder_to_archive,
       archive_folder = s3_dest_of cfg folder_to_archive,
       s3_storage_class = storage_class cfg,
       profile = aws_profile cfg,
       archive_mode = Some (if is_recursive then ''Recursive'' else ''Single''),
       timestamp = clock_now env,
       timestamp_archive = clock_now env,
       user = os_user env,
       nih_project = nih \<rparr>"

text \<open>
  The steps of \<open>Archiver.archive_locally\<close> after the catalog step: manifest, upload of the
  folder, upload of the catalog with the storage class set to \<open>INTELLIGENT_TIERING\<close> for
  that run, verification, and the registry entry for a top-level folder.
\<close>

definition archive_upload ::
  "environment \<Rightarrow> config \<Rightarrow> string \<Rightarrow> bool \<Rightarrow> (string \<times> string \<times> string) option \<Rightarrow> bool
     \<Rightarrow> world \<Rightarrow> archive_outcome \<times> world" where
  "archive_upload env cfg folder_to_archive is_recursive nih is_subfolder w =
     (let s3_dest = s3_dest_of cfg folder_to_archive;
          (sums_ok, files1) = gen_md5sums env folder_to_archive md5sum_filename (fs w);
          w1 = w\<lparr>fs := files1\<rparr>
      in if \<not> sums_ok then (ChecksumFailed, w1)
         else
           (let hashfile = path_join folder_to_archive md5sum_filename;
                (ret1, runs1) = rclone_copy (copy_tool env) cfg (storage_class cfg)
                                  folder_to_archive s3_dest upload_args (rclone_runs w1);
                w2 = w1\<lparr>rclone_runs := runs1\<rparr>
            in if \<not> ret1 then (UploadFailed, w2)
               else
                 (let allfiles_source = path_join folder_to_archive allfiles_csv_filename;
                      (ret2, runs2) = rclone_copy (copy_tool env) cfg ''INTELLIGENT_TIERING''
                                        allfiles_source s3_dest upload_args (rclone_runs w2);
                      w3 = w2\<lparr>rclone_runs := runs2\<rparr>
                  in if \<not> ret2 then (AllfilesUploadFailed, w3)
                     else
                       (let (ret3, runs3) = rclone_checksum (copy_tool env) cfg (storage_class cfg)
                                              hashfile s3_dest [''--max-depth'', ''1'']
                                              (rclone_runs w3);
                            w4 = w3\<lparr>rclone_runs := runs3\<rparr>
                        in if \<not> ret3 then (VerifyFailed, w4)
                           else if \<not> is_subfolder
                           then (Completed,
                                 w4\<lparr>registry :=
                                      archive_json_add_entry (registry w4)
                                        (rstrip_sep folder_to_archive)
                                        (new_entry env cfg folder_to_archive is_recursive nih)\<rparr>)
                           else (Completed, w4)))))"

text \<open>\<open>Archiver.archive_locally\<close>\<close>

definition archive_locally ::
  "environment \<Rightarrow> config \<Rightarrow> string \<Rightarrow> bool \<Rightarrow> (string \<times> string \<times> string) option \<Rightarrow> bool
     \<Rightarrow> bool \<Rightarrow> bool \<Rightarrow> world \<Rightarrow> archive_outcome \<times> world" where
  "archive_locally env cfg folder_to_archive is_recursive nih is_subfolder is_tar is_force w =
     (let froster_md5sum_exists =
            (case fs w folder_to_archive of
               None \<Rightarrow> False
             | Some d \<Rightarrow> dir_isfile d md5sum_filename)
      in case is_folder_archived (registry w) (rstrip_sep folder_to_archive) of
           Inl e \<Rightarrow> (Raised e, w)
         | Inr True \<Rightarrow> (Exit 0, w)
         | Inr False \<Rightarrow>
             if froster_md5sum_exists \<and> \<not> is_force then (Exit 1, w)
             else
               (let w1 = (if froster_md5sum_exists
                          then w\<lparr>fs := reset_folder env (registry w) folder_to_archive False (fs w)\<rparr>
                          else w)
                in case fs w1 folder_to_archive of
                     None \<Rightarrow> (Raised OSError, w1)
                   | Some [] \<Rightarrow> (SkippedEmpty, w1)
                   | Some (x # xs) \<Rightarrow>
                       (let (packed_ok, files2) =
                              gen_allfiles_and_tar env folder_to_archive (thresholdKB cfg) is_tar
                                (fs w1);
                            w2 = w1\<lparr>fs := files2\<rparr>
                        in if \<not> packed_ok then (PackFailed, w2)
                           else archive_upload env cfg folder_to_archive is_recursive nih
                                  is_subfolder w2)))"

section \<open>Batch archive\<close>

text \<open>How a command ends: it returns, or the process exits with a status, or an
  exception reaches the top.\<close>

datatype process_end = Returned | Exited int | Crashed py_error

text \<open>\<open>clean_paths\<close>\<close>

definition clean_paths :: "environment \<Rightarrow> string list \<Rightarrow> string list" where
  "clean_paths env paths = map (\<lambda>path. realpath env (rstrip_sep (expanduser env path))) paths"

text \<open>\<open>os.path.commonpath\<close> of two paths on POSIX.\<close>

definition commonpath2 :: "string \<Rightarrow> string \<Rightarrow> py_error + string" where
  "commonpath2 a b =
     (if (take 1 a = [sep]) \<noteq> (take 1 b = [sep]) then Inl ValueError
      else Inr ((if take 1 a = [sep] then [sep] else [])
                @ join_with [sep] (longest_common_prefix (path_parts a) (path_parts b))))"

text \<open>
  \<open>Archiver._is_recursive_collision\<close>: some pair of folders has one of the two as common
  path; an exception counts as a collision.
\<close>

definition pair_collides :: "string \<Rightarrow> string \<Rightarrow> bool" where
  "pair_collides a b =
     (case commonpath2 a b of Inl e \<Rightarrow> True | Inr c \<Rightarrow> c = a \<or> c = b)"

fun is_recursive_collision :: "string list \<Rightarrow> bool" where
  "is_recursive_collision [] = False"
| "is_recursive_collision (f # rest) =
     (list_ex (pair_collides f) rest \<or> is_recursive_collision rest)"

text \<open>\<open>Archiver._check_path_permissions\<close>\<close>

definition check_path_permissions :: "environment \<Rightarrow> string \<Rightarrow> bool" where
  "check_path_permissions env path \<longleftrightarrow> path = [] \<or> access_rw env path"

text \<open>
  The checks of \<open>Archiver._is_correct_files_folders_permissions\<close> for one folder that is a
  directory: without the recursive flag its regular files, with it every directory of the
  walk and all its children.
\<close>

definition folder_permissions ::
  "environment \<Rightarrow> bool \<Rightarrow> (string \<rightharpoonup> dir) \<Rightarrow> string \<Rightarrow> bool" where
  "folder_permissions env is_recursive files folder =
     (if is_recursive then
        list_all (\<lambda>r. check_path_permissions env r \<and>
                    (case files r of
                       None \<Rightarrow> True
                     | Some d \<Rightarrow> list_all (\<lambda>(name, n). check_path_permissions env (path_join r name)) d))
                 (folder # walk_below env folder)
      else
        (case files folder of
           None \<Rightarrow> True
         | Some d \<Rightarrow> list_all (\<lambda>(name, n). node_kind n = Regular \<longrightarrow>
                                 check_path_permissions env (path_join folder name)) d))"

text \<open>
  \<open>Archiver._is_correct_files_folders_permissions\<close>: a folder that is not a directory
  ends the process with status 1 (the exit passes \<open>except Exception\<close>).
\<close>

fun is_correct_files_folders_permissions ::
  "environment \<Rightarrow> string list \<Rightarrow> bool \<Rightarrow> (string \<rightharpoonup> dir) \<Rightarrow> int + bool" where
  "is_correct_files_folders_permissions env [] is_recursive files = Inr True"
| "is_correct_files_folders_permissions env (folder # rest) is_recursive files =
     (if files folder = None then Inl 1
      else (case is_correct_files_folders_permissions env rest is_recursive files of
              Inl c \<Rightarrow> Inl c
            | Inr ok \<Rightarrow> Inr (folder_permissions env is_recursive files folder \<and> ok)))"

text \<open>
  The calls of \<open>archive_locally\<close> for the directories of one walk, in order. An exit inside
  a call ends everything; any other outcome is followed by the next call. The outcomes are
  collected as they are printed.
\<close>

fun archive_roots ::
  "environment \<Rightarrow> config \<Rightarrow> bool \<Rightarrow> (string \<times> string \<times> string) option \<Rightarrow> bool \<Rightarrow> bool
     \<Rightarrow> (string \<times> bool) list \<Rightarrow> world \<Rightarrow> process_end \<times> world \<times> archive_outcome list" where
  "archive_roots env cfg is_recursive nih is_tar is_force [] w = (Returned, w, [])"
| "archive_roots env cfg is_recursive nih is_tar is_force ((dirpath, is_subfolder) # rest) w =
     (case archive_locally env cfg dirpath is_recursive nih is_subfolder is_tar is_force w of
        (Exit c, w') \<Rightarrow> (Exited c, w', [Exit c])
      | (out, w') \<Rightarrow>
          (case archive_roots env cfg is_recursive nih is_tar is_force rest w' of
             (r, w'', outs) \<Rightarrow> (r, w'', out # outs)))"

text \<open>The loop over the folders in \<open>Archiver.archive\<close>.\<close>

fun archive_folders ::
  "environment \<Rightarrow> config \<Rightarrow> bool \<Rightarrow> (string \<times> string \<times> string) option \<Rightarrow> bool \<Rightarrow> bool
     \<Rightarrow> string list \<Rightarrow> world \<Rightarrow> process_end \<times> world \<times> archive_outcome list" where
  "archive_folders env cfg is_recursive nih is_tar is_force [] w = (Returned, w, [])"
| "archive_folders env cfg is_recursive nih is_tar is_force (folder # rest) w =
     (let jobs = (if is_recursive
                  then (if fs w folder = None then []
                        else map (\<lambda>r. (r, folder \<noteq> r)) (folder # walk_below env folder))
                  else [(folder, False)])
      in case archive_roots env cfg is_recursive nih is_tar is_force jobs w of
           (Returned, w', outs) \<Rightarrow>
             (case archive_folders env cfg is_recursive nih is_tar is_force rest w' of
                (r, w'', outs') \<Rightarrow> (r, w'', outs @ outs'))
         | (r, w', outs) \<Rightarrow> (r, w', outs))"

text \<open>
  \<open>Archiver.archive\<close>. Submitting the batch to the scheduler (\<open>_archive_slurm\<close>) touches
  none of the state modelled here.
\<close>

definition archive ::
  "environment \<Rightarrow> config \<Rightarrow> string list \<Rightarrow> world \<Rightarrow> process_end \<times> world \<times> archive_outcome list" where
  "archive env cfg folders0 w =
     (let folders = clean_paths env folders0;
          is_recursive = arg_recursive cfg;
          is_tar = (\<not> arg_notar cfg);
          is_force = arg_force cfg
      in if is_recursive \<and> is_recursive_collision folders then (Exited 1, w, [])
         else
           (case is_correct_files_folders_permissions env folders is_recursive (fs w) of
              Inl c \<Rightarrow> (Exited c, w, [])
            | Inr False \<Rightarrow> (Exited 1, w, [])
            | Inr True \<Rightarrow>
                (let nih = (if is_nih cfg then nih_choice env else None) in
                 if use_slurm env then (Returned, w, [])
                 else archive_folders env cfg is_recursive nih is_tar is_force folders w)))"

section \<open>Delete orchestrator\<close>

text \<open>
  How \<open>Archiver.delete_locally\<close> ends: by one of its \<open>return\<close> statements, by reaching the
  end with the list of deleted files, by an exception caught inside, or by an exception
  from the registry lookup, which is made outside the \<open>try\<close>.
\<close>

datatype delete_outcome =
    NotArchived
  | NoHashfile
  | DeleteVerifyFailed
  | Deleted "string list"
  | DeleteRaised py_error
  | Uncaught py_error

text \<open>The files the deletion loop removes: every listed file but four meta files.\<close>

definition files_to_delete :: "dir \<Rightarrow> string list" where
  "files_to_delete d =
     filter (\<lambda>file. \<not> (file = md5sum_filename \<or> file = md5sum_restored_filename
                       \<or> file = allfiles_csv_filename \<or> file = where_did_the_files_go_filename))
            (walk_files d)"

text \<open>
  The placeholder text, as the lines of the file (the writes joined and split at the line
  ends). The restore command shows the folder between double quotes.
\<close>

definition readme_lines ::
  "environment \<Rightarrow> config \<Rightarrow> entry \<Rightarrow> string \<Rightarrow> string \<Rightarrow> string list \<Rightarrow> string list" where
  "readme_lines env cfg info folder_to_delete s3_dest deleted_files =
     [''The files in this folder have been moved to an AWS S3 archive!'',
      [],
      ''Archive location: '' @ s3_dest,
      ''Archive profile (~/.aws): '' @ profile info,
      ''Archiver user: '' @ user info,
      ''Archiver email: '' @ email cfg,
      ''Archive tool: https://github.com/dirkpetersen/froster'',
      ''Restore command: froster restore '' @ [CHR 0x22] @ folder_to_delete @ [CHR 0x22],
      ''Deletion date: '' @ clock_now env,
      [],
      [],
      ''First 10 files deleted this time:'',
      join_with '', '' (take 10 deleted_files),
      [],
      ''Please see more metadata in Froster.allfiles.csv file'']"

text \<open>\<open>Archiver.delete_locally\<close>\<close>

definition delete_locally ::
  "environment \<Rightarrow> config \<Rightarrow> string \<Rightarrow> world \<Rightarrow> delete_outcome \<times> world" where
  "delete_locally env cfg folder_to_delete w =
     (case archive_json_get_row (registry w) folder_to_delete of
        Inl e \<Rightarrow> (Uncaught e, w)
      | Inr None \<Rightarrow> (NotArchived, w)
      | Inr (Some info) \<Rightarrow>
          (case fs w folder_to_delete of
             None \<Rightarrow> (NoHashfile, w)
           | Some d \<Rightarrow>
               if \<not> dir_exists d md5sum_filename \<and> \<not> dir_exists d md5sum_restored_filename
               then (NoHashfile, w)
               else
                 (let hashfile = path_join folder_to_delete
                                   (if dir_exists d md5sum_filename then md5sum_filename
                                    else md5sum_restored_filename);
                      subfolder_path = py_replace (local_folder info) [] folder_to_delete;
                      s3_dest = archive_folder info @ subfolder_path;
                      (ret, runs1) = rclone_checksum (copy_tool env) cfg (storage_class cfg)
                                       hashfile s3_dest [''--max-depth'', ''1''] (rclone_runs w);
                      w1 = w\<lparr>rclone_runs := runs1\<rparr>
                  in if \<not> ret then (DeleteVerifyFailed, w1)
                     else
                       (let deleted_files = files_to_delete d;
                            d1 = fold dir_remove deleted_files d
                        in if dir_isdir d1 where_did_the_files_go_filename
                           then (DeleteRaised OSError, w1\<lparr>fs := (fs w1)(folder_to_delete \<mapsto> d1)\<rparr>)
                           else (Deleted deleted_files,
                                 w1\<lparr>fs := (fs w1)(folder_to_delete \<mapsto>
                                        dir_write where_did_the_files_go_filename
                                          (new_file env
                                             (Readme (readme_lines env cfg info folder_to_delete
                                                        s3_dest deleted_files))) d1)\<rparr>)))))"

text \<open>The loop over the directories in \<open>Archiver.delete\<close>.\<close>

fun delete_roots ::
  "environment \<Rightarrow> config \<Rightarrow> string list \<Rightarrow> world \<Rightarrow> process_end \<times> world \<times> delete_outcome list" where
  "delete_roots env cfg [] w = (Returned, w, [])"
| "delete_roots env cfg (dirpath # rest) w =
     (case delete_locally env cfg dirpath w of
        (Uncaught e, w') \<Rightarrow> (Crashed e, w', [Uncaught e])
      | (out, w') \<Rightarrow>
          (case delete_roots env cfg rest w' of (r, w'', outs) \<Rightarrow> (r, w'', out # outs)))"

text \<open>\<open>Archiver.delete\<close>\<close>

definition delete ::
  "environment \<Rightarrow> config \<Rightarrow> string list \<Rightarrow> world \<Rightarrow> process_end \<times> world \<times> delete_outcome list" where
  "delete env cfg folders0 w =
     (let folders = clean_paths env folders0;
          is_recursive = arg_recursive cfg
      in if is_recursive \<and> is_recursive_collision folders then (Exited 1, w, [])
         else
           (case is_correct_files_folders_permissions env folders is_recursive (fs w) of
              Inl c \<Rightarrow> (Exited c, w, [])
            | Inr False \<Rightarrow> (Exited 1, w, [])
            | Inr True \<Rightarrow>
                delete_roots env cfg
                  (concat (map (\<lambda>folder.
                     if is_recursive
                     then (if fs w folder = None then [] else folder # walk_below env folder)
                     else [folder]) folders)) w))"

section \<open>Notions used in the statements\<close>

text \<open>
  The registry invariant of the data model: an entry is stored under its own
  \<open>local_folder\<close> and carries an archive mode.
\<close>

definition registry_wf :: "(string \<rightharpoonup> entry) \<Rightarrow> bool" where
  "registry_wf data \<longleftrightarrow>
     (\<forall>k e. data k = Some e \<longrightarrow> local_folder e = k \<and> archive_mode e \<noteq> None)"




text \<open>The three runs of the copy tool that a folder's archiving makes, in order.\<close>

definition folder_upload_call :: "config \<Rightarrow> string \<Rightarrow> rclone_call" where
  "folder_upload_call cfg folder =
     \<lparr>command = with_log_options ([rclone_bin cfg, ''copy''] @ upload_args
                   @ [folder, s3_dest_of cfg folder]),
      env_storage_class = storage_class cfg\<rparr>"

definition allfiles_upload_call :: "config \<Rightarrow> string \<Rightarrow> rclone_call" where
  "allfiles_upload_call cfg folder =
     \<lparr>command = with_log_options ([rclone_bin cfg, ''copy''] @ upload_args
                   @ [path_join folder allfiles_csv_filename, s3_dest_of cfg folder]),
      env_storage_class = ''INTELLIGENT_TIERING''\<rparr>"

definition verify_call :: "config \<Rightarrow> string \<Rightarrow> rclone_call" where
  "verify_call cfg folder =
     \<lparr>command = with_log_options ([rclone_bin cfg, ''checksum''] @ [''--max-depth'', ''1'']
                   @ [''md5'', path_join folder md5sum_filename, s3_dest_of cfg folder]),
      env_storage_class = storage_class cfg\<rparr>"

text \<open>The file names that the manifest of a directory lists.\<close>

definition manifest_names :: "dir \<Rightarrow> string \<Rightarrow> string set" where
  "manifest_names d hash_file =
     (case map_of d hash_file of
        Some (Node k st (Manifest ls)) \<Rightarrow> set (map snd ls)
      | _ \<Rightarrow> {})"

section \<open>Example data\<close>

definition example_entry :: "string \<Rightarrow> string \<Rightarrow> entry" where
  "example_entry folder mode =
     \<lparr> local_folder = folder, archive_folder = '':s3:bucket/archive'' @ folder,
       s3_storage_class = ''DEEP_ARCHIVE'', profile = ''default'',
       archive_mode = Some mode, timestamp = ''2024-01-01T00:00:00'',
       timestamp_archive = ''2024-01-01T00:00:00'', user = ''alice'', nih_project = None \<rparr>"

text \<open>\<open>/data/x\<close> archived recursively after \<open>/data/x/y\<close> had been archived on its own.\<close>

definition example_registry :: "string \<rightharpoonup> entry" where
  "example_registry =
     [''/data/x'' \<mapsto> example_entry ''/data/x'' ''Recursive'',
      ''/data/x/y'' \<mapsto> example_entry ''/data/x/y'' ''Single'']"

definition example_pwalk_row :: "string \<Rightarrow> int \<Rightarrow> int \<Rightarrow> pwalk_row" where
  "example_pwalk_row name fcount dirsum =
     \<lparr> UID = 1000, GID = 1000, st_atime = 1700000000, st_mtime = 1700000000,
       filename = name, pw_fcount = fcount, pw_dirsum = dirsum \<rparr>"




definition example_config :: config where
  "example_config =
     \<lparr> bucket_name = ''bucket'', archive_dir = ''archive'', storage_class = ''DEEP_ARCHIVE'',
       aws_profile = ''default'', email = ''alice@example.org'', thresholdKB = 1024,
       rclone_bin = ''/usr/bin/rclone'', arg_days = 30, arg_retrieveopt = ''Bulk'',
       arg_nodownload = False, arg_cores = 4, arg_recursive = False, arg_notar = False,
       arg_force = False, is_nih = False \<rparr>"

text \<open>A copy tool that reports success on every run.\<close>

definition tool_ok :: rclone_tool where
  "tool_ok runs call = True"

text \<open>An environment where every run of the copy tool succeeds, and one where none does.\<close>

definition example_stat :: "nat \<Rightarrow> file_stat" where
  "example_stat n =
     \<lparr> size_bytes = n, mtime = 1700000000, atime = 1700000000, owner_uid = 1000,
       group_gid = 1000, mode_bits = 33188 \<rparr>"

definition example_env :: environment where
  "example_env =
     \<lparr> copy_tool = tool_ok, md5_of = (\<lambda>c. ''d41d8cd98f00b204e9800998ecf8427e''),
       completion_rank = (\<lambda>file. length file),
       stat_of_new = (\<lambda>c. example_stat 512), clock_now = ''2024-01-01T00:00:00'',
       os_user = ''alice'', access_rw = (\<lambda>p. True), walk_below = (\<lambda>p. []),
       expanduser = (\<lambda>p. p), realpath = (\<lambda>p. p), use_slurm = False, nih_choice = None \<rparr>"

definition failing_env :: environment where
  "failing_env = example_env\<lparr>copy_tool := (\<lambda>runs call. False)\<rparr>"

text \<open>A big file and a small one, as in the first scenario of the specification.\<close>

definition a_bin :: node where
  "a_bin = Node Regular (example_stat 2097152) (Blob 1)"

definition small_txt :: node where
  "small_txt = Node Regular (example_stat 100) (Blob 2)"


text \<open>The same folder after it has been archived: tar, catalog and manifest are there.\<close>

definition archived_dir :: dir where
  "archived_dir =
     [(''a.bin'', a_bin),
      (''Froster.smallfiles.tar'', Node Regular (example_stat 10240) (Tar [(''small.txt'', small_txt)])),
      (''Froster.allfiles.csv'', Node Regular (example_stat 200)
         (Catalog [make_row ''a.bin'' (example_stat 2097152) ''No'',
                   make_row ''small.txt'' (example_stat 100) ''Yes''])),
      (''.froster.md5sum'', Node Regular (example_stat 90)
         (Manifest [(''d41d8cd98f00b204e9800998ecf8427e'', ''a.bin'')]))]"

definition archived_world :: world where
  "archived_world =
     \<lparr> fs = [''/data/x'' \<mapsto> archived_dir],
       registry = Parsed [''/data/x'' \<mapsto> example_entry ''/data/x'' ''Single''],
       rclone_runs = [] \<rparr>"

definition fresh_world :: "dir \<Rightarrow> world" where
  "fresh_world d = \<lparr> fs = [''/data/x'' \<mapsto> d], registry = Missing, rclone_runs = [] \<rparr>"

text \<open>The archived folder before its manifest was written.\<close>

definition packed_dir :: dir where
  "packed_dir = take 3 archived_dir"


definition big_dir :: dir where
  "big_dir = [(''a.bin'', a_bin)]"

definition tar_dir :: dir where
  "tar_dir = take 2 archived_dir"

text \<open>
  A batch: \<open>/data/p\<close> holds a manifest from an earlier attempt, \<open>/data/x\<close> is in the
  registry, \<open>/data/y\<close> and \<open>/data/z\<close> are untouched.
\<close>

definition prepared_dir :: dir where
  "prepared_dir =
     [(''a.bin'', a_bin),
      (''.froster.md5sum'', Node Regular (example_stat 90)
         (Manifest [(''d41d8cd98f00b204e9800998ecf8427e'', ''a.bin'')]))]"

definition batch_world :: world where
  "batch_world =
     \<lparr> fs = [''/data/p'' \<mapsto> prepared_dir, ''/data/x'' \<mapsto> archived_dir,
             ''/data/y'' \<mapsto> big_dir, ''/data/z'' \<mapsto> big_dir],
       registry = Parsed [''/data/x'' \<mapsto> example_entry ''/data/x'' ''Single''],
       rclone_runs = [] \<rparr>"

text \<open>The large-file folder after the catalog step: nothing was packed.\<close>

definition big_dir_packed_as :: "environment \<Rightarrow> dir" where
  "big_dir_packed_as env =
     [(''a.bin'', a_bin),
      (''Froster.allfiles.csv'',
         new_file env (Catalog [make_row ''a.bin'' (example_stat 2097152) ''No'']))]"

text \<open>
  A fresh folder \<open>/data/t\<close> with a large file and one sub folder \<open>/data/t/s\<close>, archived
  with the recursive flag; and the top folder after the catalog step.
\<close>

definition tree_dir :: dir where
  "tree_dir = [(''a.bin'', a_bin), (''s'', Node Directory (example_stat 4096) (Blob 0))]"

definition tree_env :: environment where
  "tree_env =
     example_env\<lparr>walk_below := (\<lambda>p. if p = ''/data/t'' then [''/data/t/s''] else [])\<rparr>"

definition recursive_config :: config where
  "recursive_config = example_config\<lparr>arg_recursive := True\<rparr>"

definition tree_world :: world where
  "tree_world =
     \<lparr> fs = [''/data/t'' \<mapsto> tree_dir, ''/data/t/s'' \<mapsto> big_dir],
       registry = Missing, rclone_runs = [] \<rparr>"

definition tree_dir_packed_as :: "environment \<Rightarrow> dir" where
  "tree_dir_packed_as env =
     [(''a.bin'', a_bin), (''s'', Node Directory (example_stat 4096) (Blob 0)),
      (''Froster.allfiles.csv'',
         new_file env (Catalog [make_row ''a.bin'' (example_stat 2097152) ''No'']))]"

section \<open>Properties of the hotspots file name\<close>

lemma py_replace_char: "py_replace [c] [d] s = map (\<lambda>x. if x = c then d else x) s"
  unfolding py_replace_def by (induction s) auto

lemma elide_length:
  "255 < length h \<Longrightarrow> length (take 25 h @ ''.....'' @ drop (length h - 225) h) = 255"
  by simp

lemma hotspots_mount_step_match:
  assumes "prefix (mount_point mnt) folder"
  shows "length (hotspots_mount_step folder hsfile mnt) \<le> 255"
proof -
  define h where "h = ''@'' @ get_last_directory (mount_point mnt) @ ''+''
                        @ py_replace (mount_point mnt) [] folder"
  have "hotspots_mount_step folder hsfile mnt =
          (if length h > 255 then take 25 h @ ''.....'' @ drop (length h - 225) h else h)"
    using assms unfolding hotspots_mount_step_def h_def Let_def by simp
  then show ?thesis using elide_length[of h] by (cases "255 < length h") simp_all
qed

lemma hotspots_mount_step_keep:
  assumes "length hsfile \<le> 255"
  shows "length (hotspots_mount_step folder hsfile mnt) \<le> 255"
proof (cases "prefix (mount_point mnt) folder")
  case True
  then show ?thesis by (rule hotspots_mount_step_match)
next
  case False
  then show ?thesis using assms by (simp add: hotspots_mount_step_def)
qed

lemma hotspots_under_mount:
  "\<exists>mnt \<in> set mountlist. prefix (mount_point mnt) folder \<Longrightarrow>
   length (get_hotspots_file mountlist folder) \<le> 255"
  unfolding get_hotspots_file_def
proof (induction mountlist rule: rev_induct)
  case Nil
  then show ?case by simp
next
  case (snoc m ms)
  show ?case
  proof (cases "prefix (mount_point m) folder")
    case True
    then show ?thesis by (simp add: hotspots_mount_step_match)
  next
    case False
    with snoc.prems have "\<exists>mnt \<in> set ms. prefix (mount_point mnt) folder" by auto
    then show ?thesis using snoc.IH by (simp add: hotspots_mount_step_keep)
  qed
qed

text \<open>
  C8 (every encoded hotspots file name is at most 255 long, also for a folder under no
  detected network mount): the elision is applied only inside the branch for a folder under
  a mount. With no mount in the table, the folder \<open>/aaa...a/bbb...b\<close> with components of
  200 and 100 ASCII characters (each a valid directory name, 302 characters in all) gets
  the name \<open>+aaa...a+bbb...b.csv\<close> of 306 characters, which are 306 bytes.
\<close>

theorem hotspots_file_no_mount_too_long:
  "length (get_hotspots_file []
             (sep # replicate 200 (CHR ''a'') @ sep # replicate 100 (CHR ''b''))) = 306
   \<and> get_hotspots_file [] (sep # replicate 200 (CHR ''a'') @ sep # replicate 100 (CHR ''b''))
       = CHR ''+'' # replicate 200 (CHR ''a'') @ CHR ''+'' # replicate 100 (CHR ''b'') @ ''.csv''"
  by (simp add: get_hotspots_file_def py_replace_char sep_def)

section \<open>Properties of the registry lookup\<close>

lemma parent_lookup_nearest:
  assumes "registry_wf data" "data A = Some eA" "archive_mode eA = Some ''Recursive''"
  shows "A \<in> set ps \<Longrightarrow>
     (parent_lookup data ps = Inr (Some eA)) \<longleftrightarrow>
     (\<forall>B \<in> set (takeWhile (\<lambda>q. q \<noteq> A) ps). \<forall>e. data B = Some e \<longrightarrow> archive_mode e \<noteq> Some ''Recursive'')"
proof (induction ps)
  case Nil
  then show ?case by simp
next
  case (Cons p ps)
  show ?case
  proof (cases "p = A")
    case True
    then show ?thesis using assms by simp
  next
    case False
    with Cons.prems have mem: "A \<in> set ps" by simp
    show ?thesis
    proof (cases "data p")
      case None
      then show ?thesis using False Cons.IH[OF mem] by simp
    next
      case (Some e)
      with assms(1) have lf: "local_folder e = p" and md: "archive_mode e \<noteq> None"
        by (auto simp: registry_wf_def)
      from assms(1,2) have lfA: "local_folder eA = A" by (auto simp: registry_wf_def)
      from md obtain m where m: "archive_mode e = Some m" by auto
      show ?thesis
      proof (cases "m = ''Recursive''")
        case True
        have "e \<noteq> eA" using lf lfA False by auto
        then show ?thesis using Some m True False by auto
      next
        case False
        then show ?thesis using Some m \<open>p \<noteq> A\<close> Cons.IH[OF mem] by simp
      qed
    qed
  qed
qed

lemma example_parents: "path_parents ''/data/x/y/z'' = [''/data/x/y'', ''/data/x'', ''/data'', ''/'']"
  by code_simp

lemma example_registry_wf: "registry_wf example_registry"
  by (auto simp: registry_wf_def example_registry_def example_entry_def split: if_splits)

text \<open>
  C2, as amended: for a path \<open>P\<close> without an entry of its own and an ancestor \<open>A\<close>
  whose entry is marked Recursive, in a registry where every entry is stored under its own
  folder and has a mode, the lookup returns the entry of \<open>A\<close> if and only if no ancestor
  nearer to \<open>P\<close> than \<open>A\<close> has an entry marked Recursive. Entries marked Single in
  between are passed over.
\<close>

theorem get_row_nearest_recursive:
  assumes "registry_wf data" and "data P = None" and "A \<in> set (path_parents P)"
    and "data A = Some eA" and "archive_mode eA = Some ''Recursive''"
  shows "(archive_json_get_row (Parsed data) P = Inr (Some eA)) \<longleftrightarrow>
     (\<forall>B \<in> set (takeWhile (\<lambda>q. q \<noteq> A) (path_parents P)).
        \<forall>e. data B = Some e \<longrightarrow> archive_mode e \<noteq> Some ''Recursive'')"
  using parent_lookup_nearest[OF assms(1,4,5,3)] assms(2)
  by (simp add: archive_json_get_row_def)

theorem get_row_nearest_recursive_witness:
  "registry_wf example_registry \<and> example_registry ''/data/x/y/z'' = None
   \<and> ''/data/x'' \<in> set (path_parents ''/data/x/y/z'')
   \<and> example_registry ''/data/x'' = Some (example_entry ''/data/x'' ''Recursive'')
   \<and> archive_json_get_row (Parsed example_registry) ''/data/x/y/z''
        = Inr (Some (example_entry ''/data/x'' ''Recursive''))"
proof -
  have a: "example_registry ''/data/x/y/z'' = None" by (simp add: example_registry_def)
  have b: "''/data/x'' \<in> set (path_parents ''/data/x/y/z'')" by (simp add: example_parents)
  have c: "example_registry ''/data/x'' = Some (example_entry ''/data/x'' ''Recursive'')"
    by (simp add: example_registry_def)
  have d: "archive_mode (example_entry ''/data/x'' ''Recursive'') = Some ''Recursive''"
    by (simp add: example_entry_def)
  have e: "\<forall>B \<in> set (takeWhile (\<lambda>q. q \<noteq> ''/data/x'') (path_parents ''/data/x/y/z'')).
        \<forall>e. example_registry B = Some e \<longrightarrow> archive_mode e \<noteq> Some ''Recursive''"
    by (simp add: example_parents example_registry_def example_entry_def)
  from get_row_nearest_recursive[OF example_registry_wf a b c d] e
  show ?thesis using example_registry_wf a b c by simp
qed

text \<open>
  C2, as stated, fails: with \<open>/data/x\<close> marked Recursive and the intermediate
  \<open>/data/x/y\<close> marked Single, the lookup of \<open>/data/x/y/z\<close> still returns the entry of
  \<open>/data/x\<close>.
\<close>

theorem get_row_single_does_not_block:
  "archive_json_get_row (Parsed example_registry) ''/data/x/y/z''
      = Inr (Some (example_entry ''/data/x'' ''Recursive''))
   \<and> ''/data/x/y'' \<in> set (takeWhile (\<lambda>q. q \<noteq> ''/data/x'') (path_parents ''/data/x/y/z''))
   \<and> map_option archive_mode (example_registry ''/data/x/y'') = Some (Some ''Single'')"
  by (simp add: archive_json_get_row_def example_parents example_registry_def example_entry_def)

section \<open>Properties of the indexer query\<close>

text \<open>
  C6, as amended: the query keeps exactly the rows with a file count above -1 (zero
  included) and a byte sum above 0.
\<close>

theorem sql_query_rows:
  "set (sql_query rows) = sql_select ` {r \<in> set rows. pw_fcount r > -1 \<and> pw_dirsum r > 0}"
  by (auto simp: sql_query_def sql_where_def)

theorem sql_query_rows_witness:
  "set (sql_query [example_pwalk_row ''/data/d'' 0 4096, example_pwalk_row ''/data/e'' 3 0,
                   example_pwalk_row ''/data/f'' 2 10])
     = {sql_select (example_pwalk_row ''/data/d'' 0 4096), sql_select (example_pwalk_row ''/data/f'' 2 10)}"
  using sql_query_rows[of "[example_pwalk_row ''/data/d'' 0 4096, example_pwalk_row ''/data/e'' 3 0,
                   example_pwalk_row ''/data/f'' 2 10]"]
  by (auto simp: example_pwalk_row_def)

text \<open>
  C6, as stated, fails: a row with a file count of 0 and a positive byte sum is kept.
\<close>

theorem sql_query_keeps_zero_count:
  "map FileCount (index_rows [example_pwalk_row ''/data/d'' 0 4096]) = [0]"
  by (simp add: index_rows_def drop_file_lines_def sql_query_def sql_where_def sql_select_def
        example_pwalk_row_def)

section \<open>Properties of the glacier restore controller\<close>









section \<open>Properties of the delete orchestrator\<close>

lemmas meta_names = smallfiles_tar_filename_def allfiles_csv_filename_def md5sum_filename_def
  md5sum_restored_filename_def where_did_the_files_go_filename_def

text \<open>
  C1: for a folder with a registry entry and a local manifest, when the verification of
  the manifest against the remote fails, \<open>delete_locally\<close> stops there: the folders and
  their contents are exactly as before (no file removed, no placeholder written), and so
  is the registry.
\<close>

theorem delete_keeps_folder_on_failed_verification:
  assumes "archive_json_get_row (registry w) folder = Inr (Some info)"
    and "fs w folder = Some d"
    and "dir_exists d md5sum_filename \<or> dir_exists d md5sum_restored_filename"
    and "\<not> fst (rclone_checksum (copy_tool env) cfg (storage_class cfg)
                 (path_join folder (if dir_exists d md5sum_filename then md5sum_filename
                                    else md5sum_restored_filename))
                 (archive_folder info @ py_replace (local_folder info) [] folder)
                 [''--max-depth'', ''1''] (rclone_runs w))"
  shows "fst (delete_locally env cfg folder w) = DeleteVerifyFailed
       \<and> fs (snd (delete_locally env cfg folder w)) = fs w
       \<and> registry (snd (delete_locally env cfg folder w)) = registry w"
proof -
  define hashfile where
    "hashfile = path_join folder (if dir_exists d md5sum_filename then md5sum_filename
                                  else md5sum_restored_filename)"
  define s3_dest where "s3_dest = archive_folder info @ py_replace (local_folder info) [] folder"
  obtain ret runs1 where r: "rclone_checksum (copy_tool env) cfg (storage_class cfg) hashfile
      s3_dest [''--max-depth'', ''1''] (rclone_runs w) = (ret, runs1)"
    by (cases "rclone_checksum (copy_tool env) cfg (storage_class cfg) hashfile
      s3_dest [''--max-depth'', ''1''] (rclone_runs w)")
  with assms(4) have "\<not> ret" by (simp add: hashfile_def s3_dest_def)
  then have "delete_locally env cfg folder w = (DeleteVerifyFailed, w\<lparr>rclone_runs := runs1\<rparr>)"
    using assms(1-3) r unfolding delete_locally_def hashfile_def s3_dest_def
    by (simp add: Let_def)
  then show ?thesis by simp
qed

lemma archived_row: "archive_json_get_row (registry archived_world) ''/data/x''
     = Inr (Some (example_entry ''/data/x'' ''Single''))"
  by (simp add: archive_json_get_row_def archived_world_def)

theorem delete_keeps_folder_on_failed_verification_witness:
  "fst (delete_locally failing_env example_config ''/data/x'' archived_world) = DeleteVerifyFailed
   \<and> fs (snd (delete_locally failing_env example_config ''/data/x'' archived_world))
       = [''/data/x'' \<mapsto> archived_dir]"
proof -
  have a: "fs archived_world ''/data/x'' = Some archived_dir" by (simp add: archived_world_def)
  have b: "dir_exists archived_dir md5sum_filename \<or> dir_exists archived_dir md5sum_restored_filename"
    by (simp add: dir_exists_def archived_dir_def meta_names)
  have c: "\<not> fst (rclone_checksum (copy_tool failing_env) example_config (storage_class example_config)
                 (path_join ''/data/x'' (if dir_exists archived_dir md5sum_filename then md5sum_filename
                                    else md5sum_restored_filename))
                 (archive_folder (example_entry ''/data/x'' ''Single'')
                    @ py_replace (local_folder (example_entry ''/data/x'' ''Single'')) [] ''/data/x'')
                 [''--max-depth'', ''1''] (rclone_runs archived_world))"
    by (simp add: rclone_checksum_def run_rclone_command_def failing_env_def Let_def)
  from delete_keeps_folder_on_failed_verification[OF archived_row a b c]
  show ?thesis by (simp add: archived_world_def)
qed

section \<open>Properties of directories, manifests and the packer\<close>

lemma map_of_dir_write: "map_of (dir_write k v d) = (map_of d)(k \<mapsto> v)"
  by (simp add: dir_write_def update_conv')

lemma map_of_dir_remove: "map_of (dir_remove k d) = (map_of d)(k := None)"
  by (simp add: dir_remove_def delete_conv')

lemma map_of_fold_remove:
  "map_of (fold dir_remove ks d) f = (if f \<in> set ks then None else map_of d f)"
  by (induction ks arbitrary: d) (auto simp: map_of_dir_remove)


lemma isfile_listed: "dir_isfile d f \<Longrightarrow> f \<in> set (walk_files d)"
proof -
  assume "dir_isfile d f"
  then obtain n where n: "map_of d f = Some n" "node_kind n = Regular"
    by (auto simp: dir_isfile_def split: option.splits)
  then have "(f, n) \<in> set d" by (auto dest: map_of_SomeD)
  with n show ?thesis by (force simp: walk_files_def)
qed

lemma dir_isdir_fold_remove:
  "dir_isdir (fold dir_remove ks d) f \<longleftrightarrow> f \<notin> set ks \<and> dir_isdir d f"
  by (simp add: dir_isdir_def map_of_fold_remove)

lemma md5_lines_names:
  "set (map snd (md5_lines env hash_file d)) =
     {f. dir_isfile d f} - {hash_file, where_did_the_files_go_filename, md5sum_filename,
                            md5sum_restored_filename}"
proof -
  define g where "g = (\<lambda>file.
        if dir_isfile d file \<and> file \<noteq> hash_file \<and> file \<noteq> where_did_the_files_go_filename
           \<and> file \<noteq> md5sum_filename \<and> file \<noteq> md5sum_restored_filename
        then (case map_of d file of
                Some n \<Rightarrow> [(md5_of env (node_content n), file)]
              | None \<Rightarrow> [])
        else [])"
  have one: "\<And>x. snd ` set (g x) =
      (if dir_isfile d x \<and> x \<noteq> hash_file \<and> x \<noteq> where_did_the_files_go_filename
           \<and> x \<noteq> md5sum_filename \<and> x \<noteq> md5sum_restored_filename then {x} else {})"
  proof -
    fix x
    show "snd ` set (g x) =
      (if dir_isfile d x \<and> x \<noteq> hash_file \<and> x \<noteq> where_did_the_files_go_filename
           \<and> x \<noteq> md5sum_filename \<and> x \<noteq> md5sum_restored_filename then {x} else {})"
    proof (cases "dir_isfile d x \<and> x \<noteq> hash_file \<and> x \<noteq> where_did_the_files_go_filename
           \<and> x \<noteq> md5sum_filename \<and> x \<noteq> md5sum_restored_filename")
      case True
      then obtain n where "map_of d x = Some n"
        by (auto simp: dir_isfile_def split: option.splits)
      with True show ?thesis unfolding g_def by simp
    next
      case False
      then have "g x = []" unfolding g_def by metis
      with False show ?thesis by simp
    qed
  qed
  have "md5_lines env hash_file d =
          sort_key (\<lambda>(md5, file). completion_rank env file) (concat (map g (walk_files d)))"
    unfolding md5_lines_def g_def ..
  then have "set (map snd (md5_lines env hash_file d)) = (\<Union>x \<in> set (walk_files d). snd ` set (g x))"
    by auto
  also have "\<dots> = {f \<in> set (walk_files d). dir_isfile d f \<and> f \<noteq> hash_file
      \<and> f \<noteq> where_did_the_files_go_filename \<and> f \<noteq> md5sum_filename
      \<and> f \<noteq> md5sum_restored_filename}"
    by (auto simp: one split: if_splits)
  finally show ?thesis using isfile_listed by auto
qed






lemma gen_md5sums_written:
  assumes "files directory = Some d"
    and "gen_md5sums env directory hash_file files = (True, files')"
  shows "files' directory =
      Some (dir_write hash_file (new_file env (Manifest (md5_lines env hash_file d))) d)"
  using assms by (auto simp: gen_md5sums_def Let_def split: if_splits)

lemma gen_md5sums_succeeds:
  assumes "files directory = Some d" and "\<not> dir_isdir d hash_file"
    and "dir_isfile d f" and "f \<noteq> hash_file" and "f \<noteq> where_did_the_files_go_filename"
    and "f \<noteq> md5sum_filename" and "f \<noteq> md5sum_restored_filename"
  shows "fst (gen_md5sums env directory hash_file files)"
proof -
  have "f \<in> set (map snd (md5_lines env hash_file d))"
    unfolding md5_lines_names using assms(3-7) by simp
  then have "md5_lines env hash_file d \<noteq> []" by auto
  then show ?thesis using assms(1,2) by (simp add: gen_md5sums_def Let_def)
qed

lemma delete_locally_deleted:
  assumes "fs w folder = Some d" and "delete_locally env cfg folder w = (Deleted names, w')"
  shows "names = files_to_delete d"
    and "\<exists>c. fs w' folder =
           Some (dir_write where_did_the_files_go_filename (new_file env (Readme c))
                   (fold dir_remove (files_to_delete d) d))"
  using assms
  by (auto simp: delete_locally_def Let_def split: sum.splits option.splits if_splits prod.splits)

lemma packed_dir_files:
  "{f. dir_isfile packed_dir f} - {md5sum_filename, where_did_the_files_go_filename,
                                   md5sum_filename, md5sum_restored_filename}
     = {''a.bin'', ''Froster.smallfiles.tar'', ''Froster.allfiles.csv''}"
  by (auto simp: dir_isfile_def packed_dir_def archived_dir_def a_bin_def meta_names
        split: if_splits)

lemma packed_dir_md5sums:
  "gen_md5sums example_env ''/data/x'' md5sum_filename [''/data/x'' \<mapsto> packed_dir]
     = (True, snd (gen_md5sums example_env ''/data/x'' md5sum_filename
                     [''/data/x'' \<mapsto> packed_dir]))"
proof -
  have a: "[''/data/x'' \<mapsto> packed_dir] ''/data/x'' = Some packed_dir" by simp
  have nd: "\<not> dir_isdir packed_dir md5sum_filename"
    by (simp add: dir_isdir_def packed_dir_def archived_dir_def meta_names)
  have f: "dir_isfile packed_dir ''a.bin''"
    by (simp add: dir_isfile_def packed_dir_def archived_dir_def a_bin_def)
  have "fst (gen_md5sums example_env ''/data/x'' md5sum_filename [''/data/x'' \<mapsto> packed_dir])"
    by (rule gen_md5sums_succeeds[where files = "[''/data/x'' \<mapsto> packed_dir]"
          and d = packed_dir and f = "''a.bin''", OF a nd f]) (simp_all add: meta_names)
  then show ?thesis by (metis prod.collapse)
qed

lemma archived_world_delete:
  "fst (delete_locally example_env example_config ''/data/x'' archived_world)
       = Deleted [''a.bin'', ''Froster.smallfiles.tar'']"
proof -
  have f: "files_to_delete archived_dir = [''a.bin'', ''Froster.smallfiles.tar'']"
    by (simp add: files_to_delete_def walk_files_def archived_dir_def a_bin_def meta_names)
  have ex: "dir_exists archived_dir md5sum_filename"
    by (simp add: dir_exists_def archived_dir_def meta_names)
  have nw: "\<not> dir_isdir (fold dir_remove [''a.bin'', ''Froster.smallfiles.tar''] archived_dir)
              where_did_the_files_go_filename"
    by (subst dir_isdir_fold_remove) (simp add: dir_isdir_def archived_dir_def meta_names)
  have ck: "\<And>a b c. fst (rclone_checksum (copy_tool example_env) example_config a b c
                [''--max-depth'', ''1''] [])"
    by (simp add: rclone_checksum_def run_rclone_command_def Let_def example_env_def tool_ok_def)
  show ?thesis
    unfolding delete_locally_def using archived_row ex f nw ck
    by (simp add: Let_def archived_world_def split: prod.splits) (metis fst_conv)
qed

lemma archived_world_deleted:
  "delete_locally example_env example_config ''/data/x'' archived_world
     = (Deleted [''a.bin'', ''Froster.smallfiles.tar''],
        snd (delete_locally example_env example_config ''/data/x'' archived_world))"
  using archived_world_delete by (metis prod.collapse)

text \<open>
  C9: when \<open>Froster.smallfiles.tar\<close> is already in the folder, the catalog step returns
  true and leaves every folder as it was (no catalog written, nothing added to the tar,
  nothing removed); and \<open>archive_locally\<close>, for a folder that is neither archived nor
  holds a manifest, goes on with the manifest and the uploads exactly as after a catalog
  step that had done its work.
\<close>

theorem existing_tar_skips_catalog:
  assumes "fs w folder = Some d" and "dir_exists d smallfiles_tar_filename"
  shows "gen_allfiles_and_tar env folder smallsize is_tar (fs w) = (True, fs w)
     \<and> (is_folder_archived (registry w) (rstrip_sep folder) = Inr False \<longrightarrow>
        \<not> dir_isfile d md5sum_filename \<longrightarrow>
        archive_locally env cfg folder is_recursive nih is_subfolder is_tar is_force w
          = archive_upload env cfg folder is_recursive nih is_subfolder w)"
proof -
  have g: "\<And>s t. gen_allfiles_and_tar env folder s t (fs w) = (True, fs w)"
    using assms by (simp add: gen_allfiles_and_tar_def)
  from assms(2) obtain x xs where d: "d = x # xs"
    by (cases d) (auto simp: dir_exists_def)
  have "archive_locally env cfg folder is_recursive nih is_subfolder is_tar is_force w
          = archive_upload env cfg folder is_recursive nih is_subfolder w"
    if "is_folder_archived (registry w) (rstrip_sep folder) = Inr False"
      and "\<not> dir_isfile d md5sum_filename"
    using that assms(1) d g by (simp add: archive_locally_def)
  with g show ?thesis by simp
qed

theorem existing_tar_skips_catalog_witness:
  "gen_allfiles_and_tar example_env ''/data/x'' 1024 True (fs (fresh_world tar_dir))
      = (True, fs (fresh_world tar_dir))
   \<and> archive_locally example_env example_config ''/data/x'' False None False True False
        (fresh_world tar_dir)
      = archive_upload example_env example_config ''/data/x'' False None False (fresh_world tar_dir)"
proof -
  have a: "fs (fresh_world tar_dir) ''/data/x'' = Some tar_dir" by (simp add: fresh_world_def)
  have b: "dir_exists tar_dir smallfiles_tar_filename"
    by (simp add: dir_exists_def tar_dir_def archived_dir_def meta_names)
  have c: "is_folder_archived (registry (fresh_world tar_dir)) (rstrip_sep ''/data/x'') = Inr False"
    by (simp add: is_folder_archived_def archive_json_get_row_def fresh_world_def)
  have d: "\<not> dir_isfile tar_dir md5sum_filename"
    by (simp add: dir_isfile_def tar_dir_def archived_dir_def meta_names)
  from existing_tar_skips_catalog[OF a b, of example_env 1024 True example_config False None False False]
    c d
  show ?thesis by simp
qed

text \<open>
  C3, as amended: the manifest step hashes exactly the regular files of the folder other
  than the hash file being written, the placeholder and the two manifests; a successful
  delete removes exactly the listed files other than the two manifests, the catalog and
  the placeholder: every one of them is gone from the folder afterwards, every other
  entry is as it was (the two manifests and the catalog among them), and the placeholder
  is then written. The small-files tar is both hashed and deleted, and the catalog is
  hashed.
\<close>

theorem meta_files_hashed_and_deleted:
  "(files directory = Some d \<longrightarrow> gen_md5sums env directory hash_file files = (True, files') \<longrightarrow>
       (\<exists>lines. files' directory = Some (dir_write hash_file (new_file env (Manifest lines)) d)
          \<and> set (map snd lines) =
              {f. dir_isfile d f} - {hash_file, where_did_the_files_go_filename,
                                     md5sum_filename, md5sum_restored_filename}))
   \<and> (fs w folder = Some d \<longrightarrow> delete_locally env cfg folder w = (Deleted names, w') \<longrightarrow>
       set names = set (walk_files d) - {md5sum_filename, md5sum_restored_filename,
                                        allfiles_csv_filename, where_did_the_files_go_filename}
       \<and> (\<exists>d'. fs w' folder = Some d'
             \<and> (\<forall>f \<in> set names. map_of d' f = None)
             \<and> (\<forall>f. f \<notin> set names \<longrightarrow> f \<noteq> where_did_the_files_go_filename \<longrightarrow>
                    map_of d' f = map_of d f)
             \<and> map_of d' md5sum_filename = map_of d md5sum_filename
             \<and> map_of d' md5sum_restored_filename = map_of d md5sum_restored_filename
             \<and> map_of d' allfiles_csv_filename = map_of d allfiles_csv_filename
             \<and> dir_exists d' where_did_the_files_go_filename))"
proof (intro conjI impI)
  assume "files directory = Some d" and "gen_md5sums env directory hash_file files = (True, files')"
  then have "files' directory =
      Some (dir_write hash_file (new_file env (Manifest (md5_lines env hash_file d))) d)"
    by (rule gen_md5sums_written)
  then show "\<exists>lines. files' directory = Some (dir_write hash_file (new_file env (Manifest lines)) d)
          \<and> set (map snd lines) =
              {f. dir_isfile d f} - {hash_file, where_did_the_files_go_filename,
                                     md5sum_filename, md5sum_restored_filename}"
    using md5_lines_names by blast
next
  assume a: "fs w folder = Some d" and b: "delete_locally env cfg folder w = (Deleted names, w')"
  from delete_locally_deleted(1)[OF a b]
  show "set names = set (walk_files d) - {md5sum_filename, md5sum_restored_filename,
                                        allfiles_csv_filename, where_did_the_files_go_filename}"
    by (auto simp: files_to_delete_def)
next
  assume a: "fs w folder = Some d" and b: "delete_locally env cfg folder w = (Deleted names, w')"
  note n = delete_locally_deleted(1)[OF a b]
  from delete_locally_deleted(2)[OF a b] obtain c where d': "fs w' folder =
      Some (dir_write where_did_the_files_go_filename (new_file env (Readme c))
             (fold dir_remove (files_to_delete d) d))"
    by blast
  define d2 where "d2 = dir_write where_did_the_files_go_filename (new_file env (Readme c))
             (fold dir_remove (files_to_delete d) d)"
  have look: "map_of d2 f =
      (if f = where_did_the_files_go_filename then Some (new_file env (Readme c))
       else if f \<in> set names then None else map_of d f)" for f
    by (simp add: d2_def n map_of_dir_write map_of_fold_remove)
  have nw: "where_did_the_files_go_filename \<notin> set names"
    by (simp add: n files_to_delete_def)
  have keep: "md5sum_filename \<notin> set names" "md5sum_restored_filename \<notin> set names"
    "allfiles_csv_filename \<notin> set names"
    by (simp_all add: n files_to_delete_def)
  have diff: "md5sum_filename \<noteq> where_did_the_files_go_filename"
    "md5sum_restored_filename \<noteq> where_did_the_files_go_filename"
    "allfiles_csv_filename \<noteq> where_did_the_files_go_filename"
    by (simp_all add: meta_names)
  have g1: "\<forall>f \<in> set names. map_of d2 f = None" using look nw by auto
  have g2: "\<forall>f. f \<notin> set names \<longrightarrow> f \<noteq> where_did_the_files_go_filename \<longrightarrow>
                    map_of d2 f = map_of d f" using look by simp
  have g3: "map_of d2 md5sum_filename = map_of d md5sum_filename"
    "map_of d2 md5sum_restored_filename = map_of d md5sum_restored_filename"
    "map_of d2 allfiles_csv_filename = map_of d allfiles_csv_filename"
    using look keep diff by simp_all
  have g4: "dir_exists d2 where_did_the_files_go_filename"
    using look by (simp add: dir_exists_def)
  show "\<exists>d'. fs w' folder = Some d'
             \<and> (\<forall>f \<in> set names. map_of d' f = None)
             \<and> (\<forall>f. f \<notin> set names \<longrightarrow> f \<noteq> where_did_the_files_go_filename \<longrightarrow>
                    map_of d' f = map_of d f)
             \<and> map_of d' md5sum_filename = map_of d md5sum_filename
             \<and> map_of d' md5sum_restored_filename = map_of d md5sum_restored_filename
             \<and> map_of d' allfiles_csv_filename = map_of d allfiles_csv_filename
             \<and> dir_exists d' where_did_the_files_go_filename"
    by (rule exI[of _ d2], intro conjI) (use d' d2_def g1 g2 g3 g4 in simp_all)
qed

theorem meta_files_hashed_and_deleted_witness:
  "(\<exists>lines. snd (gen_md5sums example_env ''/data/x'' md5sum_filename
                    [''/data/x'' \<mapsto> packed_dir]) ''/data/x''
        = Some (dir_write md5sum_filename (new_file example_env (Manifest lines)) packed_dir)
      \<and> set (map snd lines) = {''a.bin'', ''Froster.smallfiles.tar'', ''Froster.allfiles.csv''})
   \<and> (\<exists>d'. fs (snd (delete_locally example_env example_config ''/data/x'' archived_world))
               ''/data/x'' = Some d'
         \<and> map_of d' ''a.bin'' = None
         \<and> map_of d' ''Froster.smallfiles.tar'' = None
         \<and> map_of d' allfiles_csv_filename = map_of archived_dir allfiles_csv_filename
         \<and> map_of d' md5sum_filename = map_of archived_dir md5sum_filename
         \<and> dir_exists d' where_did_the_files_go_filename)"
proof -
  define files' where "files' = snd (gen_md5sums example_env ''/data/x'' md5sum_filename
                                       [''/data/x'' \<mapsto> packed_dir])"
  define w' where "w' = snd (delete_locally example_env example_config ''/data/x'' archived_world)"
  have a: "[''/data/x'' \<mapsto> packed_dir] ''/data/x'' = Some packed_dir" by simp
  have b: "fs archived_world ''/data/x'' = Some archived_dir" by (simp add: archived_world_def)
  have c: "delete_locally example_env example_config ''/data/x'' archived_world
      = (Deleted [''a.bin'', ''Froster.smallfiles.tar''], w')"
    unfolding w'_def by (rule archived_world_deleted)
  have d: "gen_md5sums example_env ''/data/x'' md5sum_filename [''/data/x'' \<mapsto> packed_dir]
      = (True, files')"
    unfolding files'_def by (rule packed_dir_md5sums)
  have t1: "\<exists>lines. files' ''/data/x''
        = Some (dir_write md5sum_filename (new_file example_env (Manifest lines)) packed_dir)
      \<and> set (map snd lines) =
       {f. dir_isfile packed_dir f} - {md5sum_filename, where_did_the_files_go_filename,
                                        md5sum_filename, md5sum_restored_filename}"
    using conjunct1[OF meta_files_hashed_and_deleted[where files = "[''/data/x'' \<mapsto> packed_dir]"
        and directory = "''/data/x''" and d = packed_dir and env = example_env
        and hash_file = md5sum_filename and files' = files'], rule_format, OF a d] .
  have t2: "set [''a.bin'', ''Froster.smallfiles.tar'']
       = set (walk_files archived_dir) - {md5sum_filename, md5sum_restored_filename,
                                         allfiles_csv_filename, where_did_the_files_go_filename}
       \<and> (\<exists>d'. fs w' ''/data/x'' = Some d'
             \<and> (\<forall>f \<in> set [''a.bin'', ''Froster.smallfiles.tar'']. map_of d' f = None)
             \<and> (\<forall>f. f \<notin> set [''a.bin'', ''Froster.smallfiles.tar''] \<longrightarrow>
                    f \<noteq> where_did_the_files_go_filename \<longrightarrow>
                    map_of d' f = map_of archived_dir f)
             \<and> map_of d' md5sum_filename = map_of archived_dir md5sum_filename
             \<and> map_of d' md5sum_restored_filename = map_of archived_dir md5sum_restored_filename
             \<and> map_of d' allfiles_csv_filename = map_of archived_dir allfiles_csv_filename
             \<and> dir_exists d' where_did_the_files_go_filename)"
    using conjunct2[OF meta_files_hashed_and_deleted[where d = archived_dir
        and w = archived_world and folder = "''/data/x''" and env = example_env
        and cfg = example_config and names = "[''a.bin'', ''Froster.smallfiles.tar'']"
        and w' = w'], rule_format, OF b c] .
  from t1 have p1: "\<exists>lines. files' ''/data/x''
        = Some (dir_write md5sum_filename (new_file example_env (Manifest lines)) packed_dir)
      \<and> set (map snd lines) = {''a.bin'', ''Froster.smallfiles.tar'', ''Froster.allfiles.csv''}"
    unfolding packed_dir_files .
  from t2 obtain d' where d': "fs w' ''/data/x'' = Some d'"
    "\<forall>f \<in> set [''a.bin'', ''Froster.smallfiles.tar'']. map_of d' f = None"
    "map_of d' md5sum_filename = map_of archived_dir md5sum_filename"
    "map_of d' allfiles_csv_filename = map_of archived_dir allfiles_csv_filename"
    "dir_exists d' where_did_the_files_go_filename"
    by (elim conjE exE)
  from d'(2) have gone: "map_of d' ''a.bin'' = None" "map_of d' ''Froster.smallfiles.tar'' = None"
    by simp_all
  have p2: "\<exists>d'. fs w' ''/data/x'' = Some d'
         \<and> map_of d' ''a.bin'' = None
         \<and> map_of d' ''Froster.smallfiles.tar'' = None
         \<and> map_of d' allfiles_csv_filename = map_of archived_dir allfiles_csv_filename
         \<and> map_of d' md5sum_filename = map_of archived_dir md5sum_filename
         \<and> dir_exists d' where_did_the_files_go_filename"
    by (rule exI[of _ d'], intro conjI) (use d' gone in simp_all)
  show ?thesis using p1 p2 unfolding files'_def w'_def by (rule conjI)
qed

text \<open>
  C3, as stated, fails: in a packed folder the manifest written by the manifest step lists
  the tar and the catalog, and the delete of the archived folder removes the tar.
\<close>

theorem tar_and_catalog_hashed_tar_deleted:
  "manifest_names (the (snd (gen_md5sums example_env ''/data/x'' md5sum_filename
                               [''/data/x'' \<mapsto> packed_dir]) ''/data/x'')) md5sum_filename
     = {''a.bin'', ''Froster.smallfiles.tar'', ''Froster.allfiles.csv''}
   \<and> fst (delete_locally example_env example_config ''/data/x'' archived_world)
       = Deleted [''a.bin'', ''Froster.smallfiles.tar'']
   \<and> map_of (the (fs (snd (delete_locally example_env example_config ''/data/x''
                              archived_world)) ''/data/x'')) ''Froster.smallfiles.tar'' = None"
proof -
  have a: "[''/data/x'' \<mapsto> packed_dir] ''/data/x'' = Some packed_dir" by simp
  have b: "fs archived_world ''/data/x'' = Some archived_dir" by (simp add: archived_world_def)
  note w = gen_md5sums_written[where files = "[''/data/x'' \<mapsto> packed_dir]"
      and directory = "''/data/x''" and d = packed_dir, OF a packed_dir_md5sums]
  have p1: "manifest_names (the (snd (gen_md5sums example_env ''/data/x'' md5sum_filename
                               [''/data/x'' \<mapsto> packed_dir]) ''/data/x'')) md5sum_filename
     = {''a.bin'', ''Froster.smallfiles.tar'', ''Froster.allfiles.csv''}"
    unfolding w using md5_lines_names[of example_env md5sum_filename packed_dir]
    by (simp add: manifest_names_def map_of_dir_write new_file_def packed_dir_files)
  from delete_locally_deleted(2)[OF b archived_world_deleted] obtain c where
    d': "fs (snd (delete_locally example_env example_config ''/data/x'' archived_world)) ''/data/x''
       = Some (dir_write where_did_the_files_go_filename (new_file example_env (Readme c))
                   (fold dir_remove (files_to_delete archived_dir) archived_dir))"
    by blast
  have f: "files_to_delete archived_dir = [''a.bin'', ''Froster.smallfiles.tar'']"
    using delete_locally_deleted(1)[OF b archived_world_deleted] by simp
  have p3: "map_of (the (fs (snd (delete_locally example_env example_config ''/data/x''
                              archived_world)) ''/data/x'')) ''Froster.smallfiles.tar'' = None"
    unfolding d' f by (simp add: map_of_dir_write map_of_dir_remove meta_names)
  show ?thesis using p1 archived_world_delete p3 by (intro conjI)
qed




section \<open>Properties of the archive orchestrator\<close>

lemma rclone_copy_run:
  "rclone_copy tool cfg sc src dst args runs =
     (tool runs \<lparr>command = with_log_options ([rclone_bin cfg, ''copy''] @ args @ [src, dst]),
                 env_storage_class = sc\<rparr>,
      runs @ [\<lparr>command = with_log_options ([rclone_bin cfg, ''copy''] @ args @ [src, dst]),
               env_storage_class = sc\<rparr>])"
  by (simp add: rclone_copy_def run_rclone_command_def Let_def)

lemma rclone_checksum_run:
  "rclone_checksum tool cfg sc md5file dst args runs =
     (tool runs \<lparr>command = with_log_options ([rclone_bin cfg, ''checksum''] @ args @ [''md5'', md5file, dst]),
                 env_storage_class = sc\<rparr>,
      runs @ [\<lparr>command = with_log_options ([rclone_bin cfg, ''checksum''] @ args @ [''md5'', md5file, dst]),
               env_storage_class = sc\<rparr>])"
  by (simp add: rclone_checksum_def run_rclone_command_def Let_def)

lemma archive_upload_completed:
  assumes "archive_upload env cfg folder is_recursive nih is_subfolder w = (Completed, w')"
  shows "rclone_runs w' = rclone_runs w @ [folder_upload_call cfg folder,
                                          allfiles_upload_call cfg folder, verify_call cfg folder]
       \<and> copy_tool env (rclone_runs w) (folder_upload_call cfg folder)
       \<and> copy_tool env (rclone_runs w @ [folder_upload_call cfg folder])
            (allfiles_upload_call cfg folder)
       \<and> gen_md5sums env folder md5sum_filename (fs w) = (True, fs w')"
proof -
  obtain ok files1 where g: "gen_md5sums env folder md5sum_filename (fs w) = (ok, files1)"
    by (cases "gen_md5sums env folder md5sum_filename (fs w)")
  show ?thesis
    using assms g
    unfolding archive_upload_def rclone_copy_run rclone_checksum_run Let_def
      folder_upload_call_def allfiles_upload_call_def verify_call_def
    by (auto split: if_splits)
qed

lemma archive_locally_completed:
  assumes "archive_locally env cfg folder is_recursive nih is_subfolder is_tar is_force w
             = (Completed, w')"
  shows "\<exists>w1 w2. archive_upload env cfg folder is_recursive nih is_subfolder w2 = (Completed, w')
       \<and> rclone_runs w2 = rclone_runs w
       \<and> w1 = (if (case fs w folder of None \<Rightarrow> False | Some d \<Rightarrow> dir_isfile d md5sum_filename)
                then w\<lparr>fs := reset_folder env (registry w) folder False (fs w)\<rparr> else w)
       \<and> gen_allfiles_and_tar env folder (thresholdKB cfg) is_tar (fs w1) = (True, fs w2)"
  using assms unfolding archive_locally_def Let_def
  by (auto split: sum.splits bool.splits if_splits option.splits list.splits prod.splits)


lemma gen_allfiles_catalog:
  assumes "files directory = Some d" and "\<not> dir_exists d smallfiles_tar_filename"
    and "gen_allfiles_and_tar env directory smallsize is_tar files = (True, files')"
  shows "\<exists>d' rows. files' directory = Some d'
           \<and> map_of d' allfiles_csv_filename = Some (new_file env (Catalog rows))"
proof -
  have tc: "smallfiles_tar_filename \<noteq> allfiles_csv_filename" by (simp add: meta_names)
  show ?thesis
    using assms tc unfolding gen_allfiles_and_tar_def Let_def
    by (auto simp: map_of_dir_write map_of_dir_remove split: if_splits prod.splits)
qed

lemma gen_md5sums_keeps_catalog:
  assumes "files directory = Some d"
    and "gen_md5sums env directory md5sum_filename files = (True, files')"
  shows "\<exists>d'. files' directory = Some d'
           \<and> map_of d' allfiles_csv_filename = map_of d allfiles_csv_filename"
  using assms unfolding gen_md5sums_def Let_def
  by (auto simp: map_of_dir_write meta_names split: if_splits)

lemma archive_upload_no_exit: "fst (archive_upload env cfg folder r nih sub w) \<noteq> Exit c"
  unfolding archive_upload_def Let_def by (auto split: prod.splits if_splits)

lemma archive_locally_exit_iff:
  "fst (archive_locally env cfg folder r nih sub is_tar is_force w) = Exit c \<longleftrightarrow>
     (is_folder_archived (registry w) (rstrip_sep folder) = Inr True \<and> c = 0)
   \<or> (is_folder_archived (registry w) (rstrip_sep folder) = Inr False
       \<and> (\<exists>d. fs w folder = Some d \<and> dir_isfile d md5sum_filename) \<and> \<not> is_force \<and> c = 1)"
  unfolding archive_locally_def Let_def
  using archive_upload_no_exit
  by (auto split: sum.splits bool.splits option.splits list.splits prod.splits if_splits)

lemma parents_data: "path_parents ''/data/p'' = [''/data'', ''/'']"
  "path_parents ''/data/y'' = [''/data'', ''/'']" "path_parents ''/data/z'' = [''/data'', ''/'']"
  by code_simp+

lemma batch_archived:
  "is_folder_archived (registry batch_world) ''/data/p'' = Inr False"
  "is_folder_archived (registry batch_world) ''/data/x'' = Inr True"
  "is_folder_archived (registry batch_world) ''/data/y'' = Inr False"
  "is_folder_archived (registry batch_world) ''/data/z'' = Inr False"
  by (simp_all add: is_folder_archived_def archive_json_get_row_def batch_world_def parents_data)

lemma batch_fs:
  "fs batch_world ''/data/p'' = Some prepared_dir"
  "fs batch_world ''/data/x'' = Some archived_dir"
  "fs batch_world ''/data/y'' = Some big_dir"
  "fs batch_world ''/data/z'' = Some big_dir"
  by (simp_all add: batch_world_def)

lemma batch_permissions:
  "is_correct_files_folders_permissions example_env [''/data/p'', ''/data/y''] False (fs batch_world)
     = Inr True"
  "is_correct_files_folders_permissions example_env [''/data/x'', ''/data/y''] False (fs batch_world)
     = Inr True"
  "is_correct_files_folders_permissions failing_env [''/data/y'', ''/data/z''] False (fs batch_world)
     = Inr True"
  by (simp_all add: batch_fs folder_permissions_def check_path_permissions_def example_env_def
        failing_env_def list_all_iff)

lemma batch_first_exit:
  "archive_locally example_env example_config ''/data/p'' False None False True False batch_world
     = (Exit 1, batch_world)"
  "archive_locally example_env example_config ''/data/x'' False None False True False batch_world
     = (Exit 0, batch_world)"
  by (simp_all add: archive_locally_def rstrip_sep_def sep_def batch_archived batch_fs
        dir_isfile_def prepared_dir_def archived_dir_def meta_names a_bin_def)

lemma example_projections:
  "realpath example_env p = p" "expanduser example_env p = p" "use_slurm example_env = False"
  "realpath failing_env p = p" "expanduser failing_env p = p" "use_slurm failing_env = False"
  "arg_recursive example_config = False" "arg_notar example_config = False"
  "arg_force example_config = False" "is_nih example_config = False"
  "thresholdKB example_config = 1024"
  by (simp_all add: example_env_def failing_env_def example_config_def)

lemma archive_local_batch:
  assumes "clean_paths env folders = folders'" and "\<not> arg_recursive cfg"
    and "is_correct_files_folders_permissions env folders' False (fs w) = Inr True"
    and "\<not> use_slurm env" and "\<not> is_nih cfg"
  shows "archive env cfg folders w =
           archive_folders env cfg False None (\<not> arg_notar cfg) (arg_force cfg) folders' w"
  using assms by (simp add: archive_def Let_def)

lemma clean_batch:
  "clean_paths example_env [''/data/p'', ''/data/y''] = [''/data/p'', ''/data/y'']"
  "clean_paths example_env [''/data/x'', ''/data/y''] = [''/data/x'', ''/data/y'']"
  "clean_paths failing_env [''/data/y'', ''/data/z''] = [''/data/y'', ''/data/z'']"
  by (simp_all add: clean_paths_def rstrip_sep_def sep_def example_projections)

lemma archive_folders_exit:
  assumes "archive_locally env cfg folder False nih False t f w = (Exit c, w')"
  shows "archive_folders env cfg False nih t f (folder # rest) w = (Exited c, w', [Exit c])"
  using assms by simp

lemma archive_folders_continue:
  assumes "archive_locally env cfg folder False nih False t f w = (out, w')"
    and "\<forall>c. out \<noteq> Exit c"
  shows "archive_folders env cfg False nih t f (folder # rest) w =
           (case archive_folders env cfg False nih t f rest w' of
              (r, w'', outs) \<Rightarrow> (r, w'', out # outs))"
  using assms by (cases out) (auto split: prod.splits process_end.splits)

lemma example_batches:
  "archive example_env example_config [''/data/p'', ''/data/y''] batch_world
     = archive_folders example_env example_config False None True False
         [''/data/p'', ''/data/y''] batch_world"
  "archive example_env example_config [''/data/x'', ''/data/y''] batch_world
     = archive_folders example_env example_config False None True False
         [''/data/x'', ''/data/y''] batch_world"
  "archive failing_env example_config [''/data/y'', ''/data/z''] batch_world
     = archive_folders failing_env example_config False None True False
         [''/data/y'', ''/data/z''] batch_world"
proof -
  have p: "\<not> arg_recursive example_config" "\<not> use_slurm example_env"
    "\<not> use_slurm failing_env" "\<not> is_nih example_config"
    by (simp_all add: example_projections)
  note t = archive_local_batch[OF clean_batch(1) p(1) batch_permissions(1) p(2) p(4)]
    archive_local_batch[OF clean_batch(2) p(1) batch_permissions(2) p(2) p(4)]
    archive_local_batch[OF clean_batch(3) p(1) batch_permissions(3) p(3) p(4)]
  note t' = t[unfolded example_projections not_False_eq_True]
  show "archive example_env example_config [''/data/p'', ''/data/y''] batch_world
     = archive_folders example_env example_config False None True False
         [''/data/p'', ''/data/y''] batch_world" by (rule t'(1))
  show "archive example_env example_config [''/data/x'', ''/data/y''] batch_world
     = archive_folders example_env example_config False None True False
         [''/data/x'', ''/data/y''] batch_world" by (rule t'(2))
  show "archive failing_env example_config [''/data/y'', ''/data/z''] batch_world
     = archive_folders failing_env example_config False None True False
         [''/data/y'', ''/data/z''] batch_world" by (rule t'(3))
qed

lemma big_dir_pack:
  assumes "files folder = Some big_dir"
  shows "gen_allfiles_and_tar env folder 1024 True files
           = (True, files(folder \<mapsto> big_dir_packed_as env))"
  using assms
  by (simp add: big_dir_def big_dir_packed_as_def gen_allfiles_and_tar_def Let_def dir_exists_def
        dir_isdir_def walk_files_def dir_write_def dir_remove_def meta_names a_bin_def
        example_stat_def make_row_def)

lemma big_dir_sums:
  assumes "files folder = Some (big_dir_packed_as env)"
  shows "fst (gen_md5sums env folder md5sum_filename files)"
proof -
  have "md5_lines env md5sum_filename (big_dir_packed_as env) \<noteq> []"
    by (simp add: md5_lines_def big_dir_packed_as_def walk_files_def dir_isfile_def a_bin_def
          new_file_def meta_names)
  moreover have "\<not> dir_isdir (big_dir_packed_as env) md5sum_filename"
    by (simp add: dir_isdir_def big_dir_packed_as_def meta_names)
  ultimately show ?thesis using assms by (simp add: gen_md5sums_def Let_def)
qed

lemma gen_md5sums_frame:
  "g \<noteq> directory \<Longrightarrow> snd (gen_md5sums env directory h files) g = files g"
  by (simp add: gen_md5sums_def Let_def split: option.splits)

lemma archive_upload_frame:
  "registry (snd (archive_upload env cfg folder r nih True w)) = registry w"
  "g \<noteq> folder \<Longrightarrow> fs (snd (archive_upload env cfg folder r nih sub w)) g = fs w g"
proof -
  obtain ok files1 where g1: "gen_md5sums env folder md5sum_filename (fs w) = (ok, files1)"
    by (cases "gen_md5sums env folder md5sum_filename (fs w)")
  show "registry (snd (archive_upload env cfg folder r nih True w)) = registry w"
    using g1 unfolding archive_upload_def rclone_copy_run rclone_checksum_run Let_def
    by (simp split: if_splits)
  assume "g \<noteq> folder"
  then have "files1 g = fs w g" using gen_md5sums_frame[of g folder env md5sum_filename "fs w"] g1
    by simp
  then show "fs (snd (archive_upload env cfg folder r nih sub w)) g = fs w g"
    using g1 unfolding archive_upload_def rclone_copy_run rclone_checksum_run Let_def
    by (simp split: if_splits)
qed

lemma archive_upload_tool_fails:
  assumes "fst (gen_md5sums env folder md5sum_filename (fs w))"
    and "\<forall>runs c. \<not> copy_tool env runs c"
  shows "fst (archive_upload env cfg folder r nih sub w) = UploadFailed"
    and "registry (snd (archive_upload env cfg folder r nih sub w)) = registry w"
proof -
  obtain files1 where g1: "gen_md5sums env folder md5sum_filename (fs w) = (True, files1)"
    using assms(1) by (cases "gen_md5sums env folder md5sum_filename (fs w)") auto
  show "fst (archive_upload env cfg folder r nih sub w) = UploadFailed"
    using g1 assms(2) unfolding archive_upload_def rclone_copy_run Let_def by simp
  show "registry (snd (archive_upload env cfg folder r nih sub w)) = registry w"
    using g1 assms(2) unfolding archive_upload_def rclone_copy_run Let_def by simp
qed

lemma archive_upload_tool_ok:
  assumes "fst (gen_md5sums env folder md5sum_filename (fs w))"
    and "\<forall>runs c. copy_tool env runs c"
  shows "fst (archive_upload env cfg folder r nih sub w) = Completed"
proof -
  obtain files1 where g1: "gen_md5sums env folder md5sum_filename (fs w) = (True, files1)"
    using assms(1) by (cases "gen_md5sums env folder md5sum_filename (fs w)") auto
  show ?thesis
    using g1 assms(2) unfolding archive_upload_def rclone_copy_run rclone_checksum_run Let_def
    by simp
qed

lemma archive_locally_big_dir:
  assumes "is_folder_archived (registry w) (rstrip_sep folder) = Inr False"
    and "fs w folder = Some big_dir"
  shows "archive_locally env example_config folder False None False True False w
           = archive_upload env example_config folder False None False
               (w\<lparr>fs := (fs w)(folder \<mapsto> big_dir_packed_as env)\<rparr>)"
proof -
  have nm: "\<not> dir_isfile big_dir md5sum_filename"
    by (simp add: dir_isfile_def big_dir_def meta_names)
  have ne: "big_dir = (''a.bin'', a_bin) # []" by (simp add: big_dir_def)
  show ?thesis
    using assms nm big_dir_pack[where files = "fs w" and folder = folder and env = env, OF assms(2)]
    unfolding archive_locally_def Let_def
    by (simp add: example_projections ne)
qed


lemma failing_tool: "\<forall>runs c. \<not> copy_tool failing_env runs c"
  by (simp add: failing_env_def)

lemma ok_tool: "\<forall>runs c. copy_tool example_env runs c"
  by (simp add: example_env_def tool_ok_def)

lemma archive_locally_big_dir_fails:
  assumes "is_folder_archived (registry w) (rstrip_sep folder) = Inr False"
    and "fs w folder = Some big_dir"
  shows "fst (archive_locally failing_env example_config folder False None False True False w)
           = UploadFailed"
    and "registry (snd (archive_locally failing_env example_config folder False None False True
                          False w)) = registry w"
    and "g \<noteq> folder \<Longrightarrow>
           fs (snd (archive_locally failing_env example_config folder False None False True
                      False w)) g = fs w g"
proof -
  define w1 where "w1 = w\<lparr>fs := (fs w)(folder \<mapsto> big_dir_packed_as failing_env)\<rparr>"
  have eq: "archive_locally failing_env example_config folder False None False True False w
           = archive_upload failing_env example_config folder False None False w1"
    unfolding w1_def by (rule archive_locally_big_dir[OF assms])
  have s: "fst (gen_md5sums failing_env folder md5sum_filename (fs w1))"
    by (rule big_dir_sums) (simp add: w1_def)
  show "fst (archive_locally failing_env example_config folder False None False True False w)
           = UploadFailed"
    unfolding eq by (rule archive_upload_tool_fails(1)[OF s failing_tool])
  show "registry (snd (archive_locally failing_env example_config folder False None False True
                          False w)) = registry w"
    unfolding eq using archive_upload_tool_fails(2)[OF s failing_tool] by (simp add: w1_def)
  assume "g \<noteq> folder"
  then show "fs (snd (archive_locally failing_env example_config folder False None False True
                      False w)) g = fs w g"
    unfolding eq using archive_upload_frame(2)[of g folder] by (simp add: w1_def)
qed

text \<open>
  C4: whenever \<open>archive_locally\<close> completes for a folder, the copy tool was run exactly
  three times, in this order: the upload of the folder under the configured storage
  class, a separate copy whose source is the folder's \<open>Froster.allfiles.csv\<close> and whose
  destination is the same remote folder, run with the storage class
  \<open>INTELLIGENT_TIERING\<close>, and the verification; both copies reported success. Neither
  the packing flag nor the threshold enters: the catalog copy is made whether or not any
  file was packed, and for a folder that held neither a manifest nor a small-files tar
  the catalog written by the catalog step is in the folder at the end. (The catalog copy
  carries the same exclude options as the folder upload; what the external tool makes of
  them for a single-file source is not part of the program.)
\<close>

theorem allfiles_csv_uploaded_separately:
  assumes "archive_locally env cfg folder is_recursive nih is_subfolder is_tar is_force w
             = (Completed, w')"
  shows "rclone_runs w' = rclone_runs w @
           [folder_upload_call cfg folder, allfiles_upload_call cfg folder, verify_call cfg folder]
       \<and> env_storage_class (allfiles_upload_call cfg folder) = ''INTELLIGENT_TIERING''
       \<and> copy_tool env (rclone_runs w) (folder_upload_call cfg folder)
       \<and> copy_tool env (rclone_runs w @ [folder_upload_call cfg folder])
            (allfiles_upload_call cfg folder)
       \<and> (\<forall>d. fs w folder = Some d \<longrightarrow> \<not> dir_isfile d md5sum_filename \<longrightarrow>
              \<not> dir_exists d smallfiles_tar_filename \<longrightarrow>
              (\<exists>d' rows. fs w' folder = Some d'
                  \<and> map_of d' allfiles_csv_filename = Some (new_file env (Catalog rows))))"
proof -
  from archive_locally_completed[OF assms] obtain w1 w2 where
    up: "archive_upload env cfg folder is_recursive nih is_subfolder w2 = (Completed, w')"
    and runs: "rclone_runs w2 = rclone_runs w"
    and w1: "w1 = (if (case fs w folder of None \<Rightarrow> False | Some d \<Rightarrow> dir_isfile d md5sum_filename)
                then w\<lparr>fs := reset_folder env (registry w) folder False (fs w)\<rparr> else w)"
    and pack: "gen_allfiles_and_tar env folder (thresholdKB cfg) is_tar (fs w1) = (True, fs w2)"
    by blast
  note u = archive_upload_completed[OF up]
  have cat: "\<exists>d' rows. fs w' folder = Some d'
                  \<and> map_of d' allfiles_csv_filename = Some (new_file env (Catalog rows))"
    if d: "fs w folder = Some d" and nm: "\<not> dir_isfile d md5sum_filename"
      and nt: "\<not> dir_exists d smallfiles_tar_filename" for d
  proof -
    from d nm w1 have "w1 = w" by simp
    with pack have p: "gen_allfiles_and_tar env folder (thresholdKB cfg) is_tar (fs w) = (True, fs w2)"
      by simp
    from gen_allfiles_catalog[OF d nt p] obtain d2 rows where
      d2: "fs w2 folder = Some d2"
        "map_of d2 allfiles_csv_filename = Some (new_file env (Catalog rows))" by blast
    from u have g: "gen_md5sums env folder md5sum_filename (fs w2) = (True, fs w')" by simp
    from gen_md5sums_keeps_catalog[OF d2(1) g] d2(2) show ?thesis by auto
  qed
  show ?thesis using u runs cat by (simp add: allfiles_upload_call_def)
qed

theorem allfiles_csv_uploaded_separately_witness:
  "\<exists>w'. archive_locally example_env example_config ''/data/x'' False None False True False
             (fresh_world big_dir) = (Completed, w')
        \<and> rclone_runs w' =
            [folder_upload_call example_config ''/data/x'',
             allfiles_upload_call example_config ''/data/x'',
             verify_call example_config ''/data/x'']
        \<and> env_storage_class (allfiles_upload_call example_config ''/data/x'')
            = ''INTELLIGENT_TIERING''"
proof -
  define w0 where "w0 = fresh_world big_dir"
  define w' where "w' = snd (archive_locally example_env example_config ''/data/x'' False None
                               False True False w0)"
  have a: "is_folder_archived (registry w0) (rstrip_sep ''/data/x'') = Inr False"
    by (simp add: w0_def fresh_world_def is_folder_archived_def archive_json_get_row_def)
  have b: "fs w0 ''/data/x'' = Some big_dir" by (simp add: w0_def fresh_world_def)
  have eq: "archive_locally example_env example_config ''/data/x'' False None False True False w0
           = archive_upload example_env example_config ''/data/x'' False None False
               (w0\<lparr>fs := (fs w0)(''/data/x'' \<mapsto> big_dir_packed_as example_env)\<rparr>)"
    by (rule archive_locally_big_dir[OF a b])
  have s: "fst (gen_md5sums example_env ''/data/x'' md5sum_filename
                  (fs (w0\<lparr>fs := (fs w0)(''/data/x'' \<mapsto> big_dir_packed_as example_env)\<rparr>)))"
    by (rule big_dir_sums) simp
  have "fst (archive_locally example_env example_config ''/data/x'' False None False True False w0)
          = Completed"
    unfolding eq by (rule archive_upload_tool_ok[OF s ok_tool])
  then have run: "archive_locally example_env example_config ''/data/x'' False None False True
                    False w0 = (Completed, w')"
    unfolding w'_def by (metis prod.collapse)
  from allfiles_csv_uploaded_separately[OF run]
  have "rclone_runs w' = rclone_runs w0 @
            [folder_upload_call example_config ''/data/x'',
             allfiles_upload_call example_config ''/data/x'',
             verify_call example_config ''/data/x'']"
    and "env_storage_class (allfiles_upload_call example_config ''/data/x'')
            = ''INTELLIGENT_TIERING''"
    by simp_all
  with run show ?thesis unfolding w0_def by (auto simp: fresh_world_def)
qed

lemma archive_locally_archived:
  assumes "is_folder_archived (registry w) (rstrip_sep folder) = Inr True"
  shows "archive_locally env cfg folder r nih sub t f w = (Exit 0, w)"
  using assms by (simp add: archive_locally_def)

lemma archive_recursive_batch:
  assumes "clean_paths env folders = folders'" and "arg_recursive cfg"
    and "\<not> is_recursive_collision folders'"
    and "is_correct_files_folders_permissions env folders' True (fs w) = Inr True"
    and "\<not> use_slurm env" and "\<not> is_nih cfg"
  shows "archive env cfg folders w =
           archive_folders env cfg True None (\<not> arg_notar cfg) (arg_force cfg) folders' w"
  using assms by (simp add: archive_def Let_def)

lemma archive_folders_recursive_exit:
  assumes "fs w folder \<noteq> None" and "walk_below env folder = [sub]" and "sub \<noteq> folder"
    and "archive_locally env cfg folder True nih False t f w = (Completed, w1)"
    and "archive_locally env cfg sub True nih True t f w1 = (Exit c, w2)"
  shows "archive_folders env cfg True nih t f (folder # rest) w = (Exited c, w2, [Completed, Exit c])"
  using assms by auto

lemma archive_upload_top_registry:
  assumes "fst (gen_md5sums env folder md5sum_filename (fs w))"
    and "\<forall>runs c. copy_tool env runs c"
  shows "registry (snd (archive_upload env cfg folder r nih False w)) =
           archive_json_add_entry (registry w) (rstrip_sep folder) (new_entry env cfg folder r nih)"
proof -
  obtain files1 where g1: "gen_md5sums env folder md5sum_filename (fs w) = (True, files1)"
    using assms(1) by (cases "gen_md5sums env folder md5sum_filename (fs w)") auto
  show ?thesis
    using g1 assms(2) unfolding archive_upload_def rclone_copy_run rclone_checksum_run Let_def
    by simp
qed

lemma tree_dir_pack:
  assumes "files folder = Some tree_dir"
  shows "gen_allfiles_and_tar env folder 1024 True files
           = (True, files(folder \<mapsto> tree_dir_packed_as env))"
  using assms
  by (simp add: tree_dir_def tree_dir_packed_as_def gen_allfiles_and_tar_def Let_def dir_exists_def
        dir_isdir_def walk_files_def dir_write_def dir_remove_def meta_names a_bin_def
        example_stat_def make_row_def)

lemma tree_dir_sums:
  assumes "files folder = Some (tree_dir_packed_as env)"
  shows "fst (gen_md5sums env folder md5sum_filename files)"
proof -
  have nd: "\<not> dir_isdir (tree_dir_packed_as env) md5sum_filename"
    by (simp add: dir_isdir_def tree_dir_packed_as_def meta_names)
  have f: "dir_isfile (tree_dir_packed_as env) ''a.bin''"
    by (simp add: dir_isfile_def tree_dir_packed_as_def a_bin_def)
  show ?thesis
    by (rule gen_md5sums_succeeds[where files = files and directory = folder
          and d = "tree_dir_packed_as env" and f = "''a.bin''" and hash_file = md5sum_filename,
          OF assms nd f]) (simp_all add: meta_names)
qed

lemma archive_locally_tree_dir:
  assumes "is_folder_archived (registry w) (rstrip_sep folder) = Inr False"
    and "fs w folder = Some tree_dir" and "thresholdKB cfg = 1024"
  shows "archive_locally env cfg folder r nih sub True f w
           = archive_upload env cfg folder r nih sub
               (w\<lparr>fs := (fs w)(folder \<mapsto> tree_dir_packed_as env)\<rparr>)"
proof -
  have nm: "\<not> dir_isfile tree_dir md5sum_filename"
    by (simp add: dir_isfile_def tree_dir_def meta_names)
  have ne: "tree_dir = (''a.bin'', a_bin) # [(''s'', Node Directory (example_stat 4096) (Blob 0))]"
    by (simp add: tree_dir_def)
  show ?thesis
    using assms nm tree_dir_pack[where files = "fs w" and folder = folder and env = env, OF assms(2)]
    unfolding archive_locally_def Let_def
    by (simp add: ne)
qed

lemma tree_projections:
  "realpath tree_env p = p" "expanduser tree_env p = p" "use_slurm tree_env = False"
  "walk_below tree_env ''/data/t'' = [''/data/t/s'']" "access_rw tree_env p"
  "arg_recursive recursive_config = True" "arg_notar recursive_config = False"
  "arg_force recursive_config = False" "is_nih recursive_config = False"
  "thresholdKB recursive_config = 1024"
  by (simp_all add: tree_env_def example_env_def recursive_config_def example_config_def)

lemma tree_tool: "\<forall>runs c. copy_tool tree_env runs c"
  by (simp add: tree_env_def example_env_def tool_ok_def)

lemma parents_tree: "path_parents ''/data/t/s'' = [''/data/t'', ''/data'', ''/'']"
  by code_simp

lemma tree_batch:
  "archive tree_env recursive_config [''/data/t''] tree_world
     = archive_folders tree_env recursive_config True None True False [''/data/t''] tree_world"
proof -
  have c: "clean_paths tree_env [''/data/t''] = [''/data/t'']"
    by (simp add: clean_paths_def rstrip_sep_def sep_def tree_projections)
  have r: "arg_recursive recursive_config" by (simp add: tree_projections)
  have n: "\<not> is_recursive_collision [''/data/t'']" by simp
  have p: "is_correct_files_folders_permissions tree_env [''/data/t''] True (fs tree_world)
             = Inr True"
    by (simp add: tree_world_def folder_permissions_def check_path_permissions_def
          tree_projections list_all_iff split: option.splits)
  have s: "\<not> use_slurm tree_env" "\<not> is_nih recursive_config"
    by (simp_all add: tree_projections)
  note t = archive_recursive_batch[OF c r n p s]
  show ?thesis by (rule t[unfolded tree_projections not_False_eq_True])
qed

lemma tree_run:
  "archive tree_env recursive_config [''/data/t''] tree_world
     = (Exited 0,
        snd (archive_locally tree_env recursive_config ''/data/t'' True None False True False
               tree_world),
        [Completed, Exit 0])"
  "rclone_runs (snd (archive_locally tree_env recursive_config ''/data/t'' True None False True
                       False tree_world))
     = [folder_upload_call recursive_config ''/data/t'',
        allfiles_upload_call recursive_config ''/data/t'',
        verify_call recursive_config ''/data/t'']"
  "fs (snd (archive_locally tree_env recursive_config ''/data/t'' True None False True
              False tree_world)) ''/data/t/s'' = Some big_dir"
proof -
  define w0 where "w0 = tree_world\<lparr>fs := (fs tree_world)(''/data/t'' \<mapsto> tree_dir_packed_as tree_env)\<rparr>"
  define w1 where "w1 = snd (archive_locally tree_env recursive_config ''/data/t'' True None False
                               True False tree_world)"
  have r0: "rstrip_sep ''/data/t'' = ''/data/t''" "rstrip_sep ''/data/t/s'' = ''/data/t/s''"
    by (simp_all add: rstrip_sep_def sep_def)
  have a: "is_folder_archived (registry tree_world) (rstrip_sep ''/data/t'') = Inr False"
    by (simp add: tree_world_def is_folder_archived_def archive_json_get_row_def)
  have b: "fs tree_world ''/data/t'' = Some tree_dir" by (simp add: tree_world_def)
  have eq: "archive_locally tree_env recursive_config ''/data/t'' True None False True False
              tree_world
           = archive_upload tree_env recursive_config ''/data/t'' True None False w0"
    unfolding w0_def by (rule archive_locally_tree_dir[OF a b tree_projections(10)])
  have s: "fst (gen_md5sums tree_env ''/data/t'' md5sum_filename (fs w0))"
    by (rule tree_dir_sums) (simp add: w0_def)
  have "fst (archive_upload tree_env recursive_config ''/data/t'' True None False w0) = Completed"
    by (rule archive_upload_tool_ok[OF s tree_tool])
  then have up: "archive_upload tree_env recursive_config ''/data/t'' True None False w0
                   = (Completed, w1)"
    unfolding w1_def eq by (metis prod.collapse)
  then have run1: "archive_locally tree_env recursive_config ''/data/t'' True None False True
                     False tree_world = (Completed, w1)"
    unfolding eq .
  have reg1: "registry w1 =
                Parsed [''/data/t'' \<mapsto> new_entry tree_env recursive_config ''/data/t'' True None]"
    unfolding w1_def eq
    using archive_upload_top_registry[OF s tree_tool, of recursive_config True None]
    by (simp add: r0 w0_def tree_world_def archive_json_add_entry_def)
  have runs1: "rclone_runs w1
     = [folder_upload_call recursive_config ''/data/t'',
        allfiles_upload_call recursive_config ''/data/t'',
        verify_call recursive_config ''/data/t'']"
    using archive_upload_completed[OF up] by (simp add: w0_def tree_world_def)
  have d: "''/data/t/s'' \<noteq> ''/data/t''" by simp
  have fs1: "fs w1 ''/data/t/s'' = Some big_dir"
    unfolding w1_def eq
    using archive_upload_frame(2)[OF d, of tree_env recursive_config True None False w0]
    by (simp add: w0_def tree_world_def)
  have arch: "is_folder_archived (registry w1) (rstrip_sep ''/data/t/s'') = Inr True"
    unfolding reg1 r0
    by (simp add: is_folder_archived_def archive_json_get_row_def parents_tree new_entry_def)
  note run2 = archive_locally_archived[OF arch, of tree_env recursive_config True None True True False]
  have ex: "fs tree_world ''/data/t'' \<noteq> None" using b by simp
  have "archive_folders tree_env recursive_config True None True False [''/data/t''] tree_world
          = (Exited 0, w1, [Completed, Exit 0])"
    by (rule archive_folders_recursive_exit[OF ex tree_projections(4) d run1 run2])
  then show "archive tree_env recursive_config [''/data/t''] tree_world
     = (Exited 0,
        snd (archive_locally tree_env recursive_config ''/data/t'' True None False True False
               tree_world),
        [Completed, Exit 0])"
    unfolding tree_batch w1_def .
  show "rclone_runs (snd (archive_locally tree_env recursive_config ''/data/t'' True None False True
                       False tree_world))
     = [folder_upload_call recursive_config ''/data/t'',
        allfiles_upload_call recursive_config ''/data/t'',
        verify_call recursive_config ''/data/t'']"
    using runs1 unfolding w1_def .
  show "fs (snd (archive_locally tree_env recursive_config ''/data/t'' True None False True
              False tree_world)) ''/data/t/s'' = Some big_dir"
    using fs1 unfolding w1_def .
qed

lemma failing_batch_returns:
  "fst (archive failing_env example_config [''/data/y'', ''/data/z''] batch_world) = Returned"
  "snd (snd (archive failing_env example_config [''/data/y'', ''/data/z''] batch_world))
     = [UploadFailed, UploadFailed]"
proof -
  define w1 where "w1 = snd (archive_locally failing_env example_config ''/data/y'' False None
                               False True False batch_world)"
  define w2 where "w2 = snd (archive_locally failing_env example_config ''/data/z'' False None
                               False True False w1)"
  have r0: "rstrip_sep ''/data/y'' = ''/data/y''" "rstrip_sep ''/data/z'' = ''/data/z''"
    by (simp_all add: rstrip_sep_def sep_def)
  have a1: "is_folder_archived (registry batch_world) (rstrip_sep ''/data/y'') = Inr False"
    by (simp add: r0 batch_archived)
  note f1 = archive_locally_big_dir_fails[OF a1 batch_fs(3)]
  have s1: "archive_locally failing_env example_config ''/data/y'' False None False True False
              batch_world = (UploadFailed, w1)"
    unfolding w1_def using f1(1) by (metis prod.collapse)
  have reg1: "registry w1 = registry batch_world" unfolding w1_def by (rule f1(2))
  have fs1: "fs w1 ''/data/z'' = Some big_dir"
    unfolding w1_def using f1(3)[of "''/data/z''"] batch_fs(4) by simp
  have a2: "is_folder_archived (registry w1) (rstrip_sep ''/data/z'') = Inr False"
    by (simp add: r0 reg1 batch_archived)
  note f2 = archive_locally_big_dir_fails[OF a2 fs1]
  have s2: "archive_locally failing_env example_config ''/data/z'' False None False True False
              w1 = (UploadFailed, w2)"
    unfolding w2_def using f2(1) by (metis prod.collapse)
  have ne: "\<forall>c. UploadFailed \<noteq> Exit c" by simp
  have l2: "archive_folders failing_env example_config False None True False [''/data/z''] w1
              = (Returned, w2, [UploadFailed])"
    using archive_folders_continue[OF s2 ne, of "[]"] by simp
  have l1: "archive_folders failing_env example_config False None True False
              [''/data/y'', ''/data/z''] batch_world = (Returned, w2, [UploadFailed, UploadFailed])"
    using archive_folders_continue[OF s1 ne, of "[''/data/z'']"] l2 by simp
  have run: "archive failing_env example_config [''/data/y'', ''/data/z''] batch_world
           = (Returned, w2, [UploadFailed, UploadFailed])"
    unfolding example_batches by (rule l1)
  show "fst (archive failing_env example_config [''/data/y'', ''/data/z''] batch_world) = Returned"
    unfolding run by simp
  show "snd (snd (archive failing_env example_config [''/data/y'', ''/data/z''] batch_world))
     = [UploadFailed, UploadFailed]"
    unfolding run by simp
qed

text \<open>
  C7: the batch does not go on after every failure. A first folder that holds a manifest
  (force not set) ends the whole process with status 1, and a first folder that is
  already archived ends it with status 0: the second folder is never processed and
  nothing is changed or recorded. In a recursive archive of a fresh folder the exit is
  reached on every run: once the top folder is completed its entry is in the registry
  with mode \<open>Recursive\<close>, the first sub folder is found archived through that entry, and
  the process ends with status 0; the copy tool has run for the top folder only and the
  sub folder is as it was. A failure that ends a folder by a return (here the upload) is
  followed by the next folder.
\<close>

theorem archive_batch_ends_at_exit:
  "archive example_env example_config [''/data/p'', ''/data/y''] batch_world
     = (Exited 1, batch_world, [Exit 1])
   \<and> archive example_env example_config [''/data/x'', ''/data/y''] batch_world
     = (Exited 0, batch_world, [Exit 0])
   \<and> fst (archive tree_env recursive_config [''/data/t''] tree_world) = Exited 0
   \<and> snd (snd (archive tree_env recursive_config [''/data/t''] tree_world))
       = [Completed, Exit 0]
   \<and> rclone_runs (fst (snd (archive tree_env recursive_config [''/data/t''] tree_world)))
       = [folder_upload_call recursive_config ''/data/t'',
          allfiles_upload_call recursive_config ''/data/t'',
          verify_call recursive_config ''/data/t'']
   \<and> fs (fst (snd (archive tree_env recursive_config [''/data/t''] tree_world))) ''/data/t/s''
       = Some big_dir
   \<and> fst (archive failing_env example_config [''/data/y'', ''/data/z''] batch_world) = Returned
   \<and> snd (snd (archive failing_env example_config [''/data/y'', ''/data/z''] batch_world))
       = [UploadFailed, UploadFailed]"
proof -
  have p: "archive example_env example_config [''/data/p'', ''/data/y''] batch_world
     = (Exited 1, batch_world, [Exit 1])"
    unfolding example_batches by (rule archive_folders_exit[OF batch_first_exit(1)])
  have x: "archive example_env example_config [''/data/x'', ''/data/y''] batch_world
     = (Exited 0, batch_world, [Exit 0])"
    unfolding example_batches by (rule archive_folders_exit[OF batch_first_exit(2)])
  have t1: "fst (archive tree_env recursive_config [''/data/t''] tree_world) = Exited 0"
    unfolding tree_run(1) by simp
  have t2: "snd (snd (archive tree_env recursive_config [''/data/t''] tree_world))
       = [Completed, Exit 0]"
    unfolding tree_run(1) by simp
  have t3: "rclone_runs (fst (snd (archive tree_env recursive_config [''/data/t''] tree_world)))
       = [folder_upload_call recursive_config ''/data/t'',
          allfiles_upload_call recursive_config ''/data/t'',
          verify_call recursive_config ''/data/t'']"
    unfolding tree_run(1) using tree_run(2) by simp
  have t4: "fs (fst (snd (archive tree_env recursive_config [''/data/t''] tree_world)))
              ''/data/t/s'' = Some big_dir"
    unfolding tree_run(1) using tree_run(3) by simp
  show ?thesis
    using p x t1 t2 t3 t4 failing_batch_returns(1) failing_batch_returns(2) by (intro conjI)
qed


end
